theory Spec2Isabelle
  imports Main "HOL-Library.Word" "HOL-Library.Char_ord"
begin

section \<open>goisilon: a client for the OneFS platform API\<close>

text \<open>
  A shallow embedding of the Go sources: \<^verbatim>\<open>api/api.go\<close> (the generic HTTP client),
  the v1 volume and quota wrappers, and \<^verbatim>\<open>snapshots.go\<close> of the facade.

  A Go function that returns \<^verbatim>\<open>(T, error)\<close> becomes a function into a pair whose second
  component is an \<open>err option\<close> (\<open>None\<close> is the nil error). A run-time panic is the
  left summand of the result, so every function that can panic returns \<open>panic + 'a\<close>.
  A nilable pointer is an \<open>option\<close>.
\<close>

subsection \<open>Errors and panics\<close>

datatype panic = IndexOutOfRange | NilDereference

text \<open>\<^verbatim>\<open>type Error struct\<close> and \<^verbatim>\<open>type JSONError struct\<close> of api.go.\<close>

record Error =
  Code :: string
  Field :: string
  Message :: string

record JSONError =
  StatusCode :: int
  Err :: "Error list"

text \<open>
  The values of Go's \<^verbatim>\<open>error\<close> interface the client handles: the sentinel \<^verbatim>\<open>io.EOF\<close>,
  an error that only carries its text (\<^verbatim>\<open>errors.New\<close>, the decoder's, the transport's),
  a \<^verbatim>\<open>*JSONError\<close>, and a \<^verbatim>\<open>*strconv.NumError\<close> with its fields \<^verbatim>\<open>Func\<close>, \<^verbatim>\<open>Num\<close> and the
  text of \<^verbatim>\<open>Err\<close>.
\<close>

datatype err = EOF | ErrorString string | JSONErr JSONError | NumError string string string

text \<open>
  \<^verbatim>\<open>func (err *JSONError) Error() string { return err.Err[0].Message }\<close>: indexing an
  empty slice panics. A \<^verbatim>\<open>NumError\<close> prints its number in double quotes (\<^verbatim>\<open>strconv.Quote\<close>,
  whose escapes of quotes, backslashes and unprintable bytes are not written out here; no
  function below reads the text of a \<^verbatim>\<open>NumError\<close>).
\<close>

definition Error_text :: "err \<Rightarrow> panic + string" where
  "Error_text e =
     (case e of
        EOF \<Rightarrow> Inr ''EOF''
      | ErrorString s \<Rightarrow> Inr s
      | NumError f n r \<Rightarrow>
          Inr (''strconv.'' @ f @ '': parsing '' @ [char_of (34 :: nat)] @ n @ [char_of (34 :: nat)]
                 @ '': '' @ r)
      | JSONErr je \<Rightarrow> (case Err je of [] \<Rightarrow> Inl IndexOutOfRange | x # _ \<Rightarrow> Inr (Message x)))"

subsection \<open>URL assembly\<close>

text \<open>\<^verbatim>\<open>s[0] == '/'\<close> and \<^verbatim>\<open>s[len(s)-1] == '/'\<close>: both index the string, so the empty
  string panics.\<close>

definition beginsWithSlash :: "string \<Rightarrow> panic + bool" where
  "beginsWithSlash s = (case s of [] \<Rightarrow> Inl IndexOutOfRange | c # _ \<Rightarrow> Inr (c = CHR ''/''))"

definition endsWithSlash :: "string \<Rightarrow> panic + bool" where
  "endsWithSlash s = (if s = [] then Inl IndexOutOfRange else Inr (last s = CHR ''/''))"

text \<open>
  The first part of \<^verbatim>\<open>DoAndGetResponseBody\<close>: the three slash tests of the \<^verbatim>\<open>var\<close> block
  (evaluated before anything is written), then the writes of hostname, path and id into
  the buffer \<^verbatim>\<open>ubf\<close>.
\<close>

definition urlPath :: "string \<Rightarrow> string \<Rightarrow> string \<Rightarrow> panic + string" where
  "urlPath host uri ident =
     (case endsWithSlash host of
        Inl p \<Rightarrow> Inl p
      | Inr hostnameEndsWithSlash \<Rightarrow>
          (case beginsWithSlash uri of
             Inl p \<Rightarrow> Inl p
           | Inr uriBeginsWithSlash \<Rightarrow>
               (case endsWithSlash uri of
                  Inl p \<Rightarrow> Inl p
                | Inr uriEndsWithSlash \<Rightarrow>
                    (let lid = length ident;
                         luri = length uri;
                         ubf0 = host;
                         ubf1 = (if \<not> hostnameEndsWithSlash \<and> (luri > 0 \<or> lid > 0)
                                 then ubf0 @ ''/'' else ubf0);
                         ubf2 = (if luri > 0
                                 then (let w = (if uriBeginsWithSlash then ubf1 @ tl uri
                                                else ubf1 @ uri)
                                       in if \<not> uriEndsWithSlash then w @ ''/'' else w)
                                 else ubf1);
                         ubf3 = (if lid > 0 then ubf2 @ ident else ubf2)
                     in Inr ubf3))))"

text \<open>\<^verbatim>\<open>OrderedValues\<close> is \<^verbatim>\<open>[][][]byte\<close>; its \<^verbatim>\<open>EncodeTo\<close> lives in a file that is not
  part of these sources and is a parameter here: it yields the text it appends, or fails.\<close>

type_synonym OrderedValues = "string list list"

definition urlBuffer ::
  "(OrderedValues \<Rightarrow> err + string) \<Rightarrow> string \<Rightarrow> string \<Rightarrow> string \<Rightarrow> OrderedValues
     \<Rightarrow> panic + (err + string)" where
  "urlBuffer encodeTo host uri ident params =
     (case urlPath host uri ident of
        Inl p \<Rightarrow> Inl p
      | Inr ubf \<Rightarrow>
          if length params > 0
          then (case encodeTo params of
                  Inl e \<Rightarrow> Inr (Inl e)
                | Inr q \<Rightarrow> Inr (Inr (ubf @ ''?'' @ q)))
          else Inr (Inr ubf))"

subsection \<open>Request headers\<close>

text \<open>
  \<^verbatim>\<open>http.Header\<close> is a map from canonical keys to lists of values; \<^verbatim>\<open>Set\<close>, \<^verbatim>\<open>Add\<close> and
  \<^verbatim>\<open>Get\<close> canonicalise the key with \<^verbatim>\<open>textproto.CanonicalMIMEHeaderKey\<close>: a key made of
  token bytes gets an upper-case letter first and after each dash and lower-case letters
  elsewhere; any other key is left as it is.
\<close>

definition isLower :: "char \<Rightarrow> bool" where
  "isLower c = (CHR ''a'' \<le> c \<and> c \<le> CHR ''z'')"

definition isUpper :: "char \<Rightarrow> bool" where
  "isUpper c = (CHR ''A'' \<le> c \<and> c \<le> CHR ''Z'')"

definition isDigit :: "char \<Rightarrow> bool" where
  "isDigit c = (CHR ''0'' \<le> c \<and> c \<le> CHR ''9'')"

definition toUpper :: "char \<Rightarrow> char" where
  "toUpper c = char_of (of_char c - (32 :: nat))"

definition toLower :: "char \<Rightarrow> char" where
  "toLower c = char_of (of_char c + (32 :: nat))"

definition validHeaderFieldByte :: "char \<Rightarrow> bool" where
  "validHeaderFieldByte c =
     (isLower c \<or> isUpper c \<or> isDigit c \<or>
      (of_char c :: nat) \<in> set [33, 35, 36, 37, 38, 39, 42, 43, 45, 46, 94, 95, 96, 124, 126])"

fun canonLoop :: "bool \<Rightarrow> string \<Rightarrow> string" where
  "canonLoop upper [] = []"
| "canonLoop upper (c # cs) =
     (let c' = (if upper \<and> isLower c then toUpper c
                else if \<not> upper \<and> isUpper c then toLower c
                else c)
      in c' # canonLoop (c' = CHR ''-'') cs)"

definition CanonicalMIMEHeaderKey :: "string \<Rightarrow> string" where
  "CanonicalMIMEHeaderKey s = (if list_all validHeaderFieldByte s then canonLoop True s else s)"

type_synonym Header = "string \<Rightarrow> string list"

definition Header_Set :: "Header \<Rightarrow> string \<Rightarrow> string \<Rightarrow> Header" where
  "Header_Set h k v = h(CanonicalMIMEHeaderKey k := [v])"

definition Header_Add :: "Header \<Rightarrow> string \<Rightarrow> string \<Rightarrow> Header" where
  "Header_Add h k v = h(CanonicalMIMEHeaderKey k := h (CanonicalMIMEHeaderKey k) @ [v])"

definition Header_Get :: "Header \<Rightarrow> string \<Rightarrow> string" where
  "Header_Get h k = (case h (CanonicalMIMEHeaderKey k) of [] \<Rightarrow> [] | v # _ \<Rightarrow> v)"

definition headerKeyContentType :: string where
  "headerKeyContentType = ''Content-Type''"

definition headerValContentTypeJSON :: string where
  "headerValContentTypeJSON = ''application/json''"

definition headerValContentTypeBinaryOctetStream :: string where
  "headerValContentTypeBinaryOctetStream = ''binary/octet-stream''"

definition defaultVolumesPath :: string where
  "defaultVolumesPath = ''/ifs/volumes''"

subsection \<open>Requests, responses and the world outside\<close>

record request =
  reqMethod :: string
  reqURL :: string
  reqBody :: "string option"
  reqHeader :: Header

record response =
  resStatusCode :: int
  resStatus :: string
  resBody :: string

text \<open>The \<^verbatim>\<open>body interface{}\<close> argument: a value that implements \<^verbatim>\<open>io.ReadCloser\<close> (its
  bytes), or any other value; the nil interface is \<open>None\<close>.\<close>

datatype 'b body = ReadCloser string | Value 'b

text \<open>
  What the client calls and these sources do not hold, as parameters:
  \<^item> \<open>encodeTo\<close>: \<^verbatim>\<open>OrderedValues.EncodeTo\<close>;
  \<^item> \<open>urlParse\<close>: \<^verbatim>\<open>url.Parse\<close> followed by \<^verbatim>\<open>u.String()\<close>;
  \<^item> \<open>jsonEncode\<close>: \<^verbatim>\<open>json.NewEncoder(buf).Encode(body)\<close>;
  \<^item> \<open>jsonDecode\<close>, \<open>jsonDecodeError\<close>: what \<^verbatim>\<open>Decode\<close> does with a body that is not
    empty, for the caller's output value and for a \<^verbatim>\<open>JSONError\<close>: the error it returns
    and the value it leaves behind;
  \<^item> \<open>newRequestError\<close>: the error of \<^verbatim>\<open>http.NewRequest\<close> for a method and a URL;
  \<^item> \<open>basicAuth\<close>: the \<^verbatim>\<open>Authorization\<close> value \<^verbatim>\<open>SetBasicAuth\<close> computes;
  \<^item> \<open>httpDo\<close>: \<^verbatim>\<open>c.http.Do\<close>, the appliance's answer to a request.
\<close>

record ('b, 'r) env =
  encodeTo :: "OrderedValues \<Rightarrow> err + string"
  urlParse :: "string \<Rightarrow> err + string"
  jsonEncode :: "'b \<Rightarrow> err + string"
  jsonDecode :: "string \<Rightarrow> 'r \<Rightarrow> err option \<times> 'r"
  jsonDecodeError :: "string \<Rightarrow> JSONError \<Rightarrow> err option \<times> JSONError"
  newRequestError :: "string \<Rightarrow> string \<Rightarrow> err option"
  basicAuth :: "string \<Rightarrow> string \<Rightarrow> string"
  httpDo :: "request \<Rightarrow> err + response"

text \<open>
  Modelled from the spec: the decoder of \<^verbatim>\<open>api/json\<close> is not among the sources.
  Response handling decodes the body "ignoring an empty body": on an empty body
  \<^verbatim>\<open>Decode\<close> returns \<^verbatim>\<open>io.EOF\<close> and leaves its target as it was; any other body is the
  parameter's business.
\<close>

definition Decode :: "(string \<Rightarrow> 'a \<Rightarrow> err option \<times> 'a) \<Rightarrow> string \<Rightarrow> 'a \<Rightarrow> err option \<times> 'a" where
  "Decode dec b v = (if b = [] then (Some EOF, v) else dec b v)"

text \<open>\<^verbatim>\<open>type client struct\<close>; of \<^verbatim>\<open>http.Client\<close> the two settings \<^verbatim>\<open>New\<close> makes.\<close>

record client =
  hostname :: string
  username :: string
  groupname :: string
  password :: string
  volumePath :: string
  apiVersion :: "8 word"
  apiMinorVersion :: "8 word"
  httpTimeout :: int
  httpInsecure :: bool

record ClientOptions =
  optInsecure :: bool
  optVolumesPath :: string
  optTimeout :: int

record apiVerResponse =
  Latest :: "string option"

subsection \<open>Building and sending a request\<close>

text \<open>\<^verbatim>\<open>http.NewRequest\<close>: the request, or an error and a nil request. An empty method
  means GET.\<close>

definition NewRequest ::
  "('b, 'r) env \<Rightarrow> string \<Rightarrow> string \<Rightarrow> string option \<Rightarrow> err + request" where
  "NewRequest E meth url b =
     (case newRequestError E meth url of
        Some e \<Rightarrow> Inl e
      | None \<Rightarrow> Inr \<lparr>reqMethod = (if meth = [] then ''GET'' else meth), reqURL = url,
                      reqBody = b, reqHeader = (\<lambda>_. [])\<rparr>)"

text \<open>The two branches for a body that is not nil end alike: the Content-Type of the
  \<^verbatim>\<open>headers\<close> map if it has that key, the branch's default otherwise. A Go map is given
  as the list of its entries in the order \<^verbatim>\<open>range\<close> visits them.\<close>

definition setContentType :: "(string \<times> string) list \<Rightarrow> string \<Rightarrow> request \<Rightarrow> request" where
  "setContentType headers dflt req =
     (case map_of headers headerKeyContentType of
        Some v \<Rightarrow> req\<lparr>reqHeader := Header_Set (reqHeader req) headerKeyContentType v\<rparr>
      | None \<Rightarrow> req\<lparr>reqHeader := Header_Set (reqHeader req) headerKeyContentType dflt\<rparr>)"

text \<open>\<^verbatim>\<open>for header, value := range headers\<close>.\<close>

fun addHeaders :: "bool \<Rightarrow> (string \<times> string) list \<Rightarrow> Header \<Rightarrow> Header" where
  "addHeaders isContentTypeSet [] h = h"
| "addHeaders isContentTypeSet ((header, v) # rest) h =
     (if header = headerKeyContentType \<and> isContentTypeSet
      then addHeaders isContentTypeSet rest h
      else addHeaders isContentTypeSet rest (Header_Add h header v))"

text \<open>
  The middle of \<^verbatim>\<open>DoAndGetResponseBody\<close>, from \<^verbatim>\<open>var isContentTypeSet bool\<close> to
  \<^verbatim>\<open>req.SetBasicAuth\<close>. In the two branches for a body the request is used before the
  error of \<^verbatim>\<open>http.NewRequest\<close> is looked at: a failed \<^verbatim>\<open>NewRequest\<close> leaves \<^verbatim>\<open>req\<close> nil and
  \<^verbatim>\<open>req.Header\<close> panics.
\<close>

definition buildRequest ::
  "('b, 'r) env \<Rightarrow> client \<Rightarrow> string \<Rightarrow> string \<Rightarrow> (string \<times> string) list \<Rightarrow> 'b body option
     \<Rightarrow> panic + (err + request)" where
  "buildRequest E c meth u headers b =
     (let made =
        (case b of
           Some (ReadCloser r) \<Rightarrow>
             (case NewRequest E meth u (Some r) of
                Inl e \<Rightarrow> Inl NilDereference
              | Inr req \<Rightarrow>
                  Inr (Inr (setContentType headers headerValContentTypeBinaryOctetStream req, True)))
         | Some (Value v) \<Rightarrow>
             (case jsonEncode E v of
                Inl e \<Rightarrow> Inr (Inl e)
              | Inr buf \<Rightarrow>
                  (case NewRequest E meth u (Some buf) of
                     Inl e \<Rightarrow> Inl NilDereference
                   | Inr req \<Rightarrow>
                       Inr (Inr (setContentType headers headerValContentTypeJSON req, True))))
         | None \<Rightarrow>
             (case NewRequest E meth u None of
                Inl e \<Rightarrow> Inr (Inl e)
              | Inr req \<Rightarrow> Inr (Inr (req, False))))
      in case made of
           Inl p \<Rightarrow> Inl p
         | Inr (Inl e) \<Rightarrow> Inr (Inl e)
         | Inr (Inr (req, isSet0)) \<Rightarrow>
             let isContentTypeSet =
                   (if \<not> isSet0 then Header_Get (reqHeader req) headerKeyContentType \<noteq> [] else isSet0);
                 h1 = (if length headers > 0
                       then addHeaders isContentTypeSet headers (reqHeader req)
                       else reqHeader req);
                 h2 = Header_Set h1 ''Authorization'' (basicAuth E (username c) (password c))
             in Inr (Inr (req\<lparr>reqHeader := h2\<rparr>)))"

text \<open>
  \<^verbatim>\<open>DoAndGetResponseBody\<close> returns \<^verbatim>\<open>(*http.Response, bool, error)\<close>. The context is the
  flag \<open>dbg\<close> (its log level is at least debug); what is logged is not modelled, it never
  reaches a result. \<open>sendRequest\<close> is the end of the function, from \<^verbatim>\<open>c.http.Do(req)\<close> on.
\<close>

definition sendRequest ::
  "('b, 'r) env \<Rightarrow> bool \<Rightarrow> request \<Rightarrow> panic + (response option \<times> bool \<times> err option)" where
  "sendRequest E dbg req =
     (case httpDo E req of
        Inl e \<Rightarrow> Inr (None, dbg, Some e)
      | Inr res \<Rightarrow> Inr (Some res, dbg, None))"

definition DoAndGetResponseBody ::
  "('b, 'r) env \<Rightarrow> client \<Rightarrow> bool \<Rightarrow> string \<Rightarrow> string \<Rightarrow> string \<Rightarrow> OrderedValues
     \<Rightarrow> (string \<times> string) list \<Rightarrow> 'b body option
     \<Rightarrow> panic + (response option \<times> bool \<times> err option)" where
  "DoAndGetResponseBody E c dbg meth uri ident params headers b =
     (case urlBuffer (encodeTo E) (hostname c) uri ident params of
        Inl p \<Rightarrow> Inl p
      | Inr (Inl e) \<Rightarrow> Inr (None, False, Some e)
      | Inr (Inr s) \<Rightarrow>
          (case urlParse E s of
             Inl e \<Rightarrow> Inr (None, False, Some e)
           | Inr u \<Rightarrow>
               (case buildRequest E c meth u headers b of
                  Inl p \<Rightarrow> Inl p
                | Inr (Inl e) \<Rightarrow> Inr (None, False, Some e)
                | Inr (Inr req) \<Rightarrow> sendRequest E dbg req)))"

subsection \<open>Reading the response\<close>

definition parseJSONError :: "('b, 'r) env \<Rightarrow> response \<Rightarrow> panic + err" where
  "parseJSONError E r =
     (case Decode (jsonDecodeError E) (resBody r) \<lparr>StatusCode = 0, Err = []\<rparr> of
        (Some e, _) \<Rightarrow> Inr e
      | (None, jsonError) \<Rightarrow>
          (case Err jsonError of
             [] \<Rightarrow> Inl IndexOutOfRange
           | x # xs \<Rightarrow>
               Inr (JSONErr (jsonError\<lparr>StatusCode := resStatusCode r,
                      Err := (if Message x = [] then x\<lparr>Message := resStatus r\<rparr> else x) # xs\<rparr>))))"

text \<open>
  \<^verbatim>\<open>DoWithHeaders\<close> returns an error and may write through \<^verbatim>\<open>resp\<close>: the result is the
  error and what \<^verbatim>\<open>resp\<close> points to afterwards (\<open>None\<close> for the nil interface).
  \<^verbatim>\<open>defer res.Body.Close()\<close> reads \<^verbatim>\<open>res.Body\<close> before the switch, so a nil response with a
  nil error would panic there.
\<close>

definition DoWithHeaders ::
  "('b, 'r) env \<Rightarrow> client \<Rightarrow> bool \<Rightarrow> string \<Rightarrow> string \<Rightarrow> string \<Rightarrow> OrderedValues
     \<Rightarrow> (string \<times> string) list \<Rightarrow> 'b body option \<Rightarrow> 'r option
     \<Rightarrow> panic + (err option \<times> 'r option)" where
  "DoWithHeaders E c dbg meth uri ident params headers b resp =
     (case DoAndGetResponseBody E c dbg meth uri ident params headers b of
        Inl p \<Rightarrow> Inl p
      | Inr (_, _, Some e) \<Rightarrow> Inr (Some e, resp)
      | Inr (None, _, None) \<Rightarrow> Inl NilDereference
      | Inr (Some res, _, None) \<Rightarrow>
          if resStatusCode res \<ge> 200 \<and> resStatusCode res \<le> 299
          then (case resp of
                  None \<Rightarrow> Inr (None, None)
                | Some v \<Rightarrow>
                    (case Decode (jsonDecode E) (resBody res) v of
                       (Some e, v') \<Rightarrow>
                         if e \<noteq> EOF then Inr (Some e, Some v') else Inr (None, Some v')
                     | (None, v') \<Rightarrow> Inr (None, Some v')))
          else (case parseJSONError E res of
                  Inl p \<Rightarrow> Inl p
                | Inr e \<Rightarrow> Inr (Some e, resp)))"

definition Get ::
  "('b, 'r) env \<Rightarrow> client \<Rightarrow> bool \<Rightarrow> string \<Rightarrow> string \<Rightarrow> OrderedValues
     \<Rightarrow> (string \<times> string) list \<Rightarrow> 'r option \<Rightarrow> panic + (err option \<times> 'r option)" where
  "Get E c dbg uri ident params headers resp =
     DoWithHeaders E c dbg ''GET'' uri ident params headers None resp"

definition Post ::
  "('b, 'r) env \<Rightarrow> client \<Rightarrow> bool \<Rightarrow> string \<Rightarrow> string \<Rightarrow> OrderedValues
     \<Rightarrow> (string \<times> string) list \<Rightarrow> 'b body option \<Rightarrow> 'r option
     \<Rightarrow> panic + (err option \<times> 'r option)" where
  "Post E c dbg uri ident params headers b resp =
     DoWithHeaders E c dbg ''POST'' uri ident params headers b resp"

definition Put ::
  "('b, 'r) env \<Rightarrow> client \<Rightarrow> bool \<Rightarrow> string \<Rightarrow> string \<Rightarrow> OrderedValues
     \<Rightarrow> (string \<times> string) list \<Rightarrow> 'b body option \<Rightarrow> 'r option
     \<Rightarrow> panic + (err option \<times> 'r option)" where
  "Put E c dbg uri ident params headers b resp =
     DoWithHeaders E c dbg ''PUT'' uri ident params headers b resp"

definition Delete ::
  "('b, 'r) env \<Rightarrow> client \<Rightarrow> bool \<Rightarrow> string \<Rightarrow> string \<Rightarrow> OrderedValues
     \<Rightarrow> (string \<times> string) list \<Rightarrow> 'r option \<Rightarrow> panic + (err option \<times> 'r option)" where
  "Delete E c dbg uri ident params headers resp =
     DoWithHeaders E c dbg ''DELETE'' uri ident params headers None resp"

definition Do ::
  "('b, 'r) env \<Rightarrow> client \<Rightarrow> bool \<Rightarrow> string \<Rightarrow> string \<Rightarrow> string \<Rightarrow> OrderedValues
     \<Rightarrow> 'b body option \<Rightarrow> 'r option \<Rightarrow> panic + (err option \<times> 'r option)" where
  "Do E c dbg meth uri ident params b resp =
     DoWithHeaders E c dbg meth uri ident params [] b resp"

subsection \<open>Client construction\<close>

definition errNewClient :: err where
  "errNewClient = ErrorString ''missing endpoint, username, or password''"

text \<open>\<^verbatim>\<open>strings.HasPrefix\<close>, and \<^verbatim>\<open>strings.Index\<close> for a separator of one byte.\<close>

definition HasPrefix :: "string \<Rightarrow> string \<Rightarrow> bool" where
  "HasPrefix s pre = (take (length pre) s = pre)"

definition IndexByte :: "string \<Rightarrow> char \<Rightarrow> int" where
  "IndexByte s c = (if c \<in> set s then int (length (takeWhile (\<lambda>x. x \<noteq> c) s)) else - 1)"

text \<open>
  \<^verbatim>\<open>strconv.ParseUint(s, 10, 8)\<close>: the empty string and any byte that is not a decimal
  digit are a syntax error, a value above 255 is a range error; the bytes are read from
  the left and the first offence decides.
\<close>

fun parseUintLoop :: "string \<Rightarrow> string \<Rightarrow> nat \<Rightarrow> err + nat" where
  "parseUintLoop s0 [] n = Inr n"
| "parseUintLoop s0 (c # cs) n =
     (if \<not> isDigit c then Inl (NumError ''ParseUint'' s0 ''invalid syntax'')
      else (let n1 = n * 10 + (of_char c - 48)
            in if n1 > 255 then Inl (NumError ''ParseUint'' s0 ''value out of range'')
               else parseUintLoop s0 cs n1))"

definition ParseUint8 :: "string \<Rightarrow> err + nat" where
  "ParseUint8 s =
     (if s = [] then Inl (NumError ''ParseUint'' s ''invalid syntax'') else parseUintLoop s s 0)"

text \<open>The client \<^verbatim>\<open>New\<close> builds before it probes the version (the struct literal and the
  \<^verbatim>\<open>if opts != nil\<close> block).\<close>

definition newClient ::
  "string \<Rightarrow> string \<Rightarrow> string \<Rightarrow> string \<Rightarrow> ClientOptions option \<Rightarrow> client" where
  "newClient host user pass grp opts =
     (let c = \<lparr>hostname = host, username = user, groupname = grp, password = pass,
                volumePath = defaultVolumesPath, apiVersion = 0, apiMinorVersion = 0,
                httpTimeout = 0, httpInsecure = False\<rparr>
      in case opts of
           None \<Rightarrow> c
         | Some opt \<Rightarrow>
             (let c1 = (if optVolumesPath opt \<noteq> [] then c\<lparr>volumePath := optVolumesPath opt\<rparr> else c);
                  c2 = (if optTimeout opt \<noteq> 0 then c1\<lparr>httpTimeout := optTimeout opt\<rparr> else c1)
              in if optInsecure opt then c2\<lparr>httpInsecure := True\<rparr> else c2))"

text \<open>\<^verbatim>\<open>err != nil && !strings.HasPrefix(err.Error(), "json: ")\<close>: whether the probe's error
  ends the construction.\<close>

definition probeFailed :: "err option \<Rightarrow> panic + bool" where
  "probeFailed e =
     (case e of
        None \<Rightarrow> Inr False
      | Some x \<Rightarrow> (case Error_text x of Inl pn \<Rightarrow> Inl pn | Inr m \<Rightarrow> Inr (\<not> HasPrefix m ''json: '')))"

text \<open>The block \<^verbatim>\<open>if resp.Latest != nil { ... } else { c.apiVersion = 2 }\<close>: the major and
  minor version the client takes from the probe's answer.\<close>

definition setVersion :: "client \<Rightarrow> string option \<Rightarrow> err + client" where
  "setVersion c latest =
     (case latest of
        None \<Rightarrow> Inr (c\<lparr>apiVersion := 2\<rparr>)
      | Some s \<Rightarrow>
          (let c0 = c\<lparr>apiMinorVersion := 0\<rparr>;
               i = IndexByte s CHR ''.''
           in if i \<noteq> - 1
              then (case ParseUint8 (drop (nat (i + 1)) s) of
                      Inl e \<Rightarrow> Inl e
                    | Inr m \<Rightarrow>
                        (case ParseUint8 (take (nat i) s) of
                           Inl e \<Rightarrow> Inl e
                         | Inr v \<Rightarrow> Inr (c0\<lparr>apiMinorVersion := of_nat m, apiVersion := of_nat v\<rparr>)))
              else (case ParseUint8 s of
                      Inl e \<Rightarrow> Inl e
                    | Inr v \<Rightarrow> Inr (c0\<lparr>apiVersion := of_nat v\<rparr>))))"

definition New ::
  "('b, apiVerResponse) env \<Rightarrow> bool \<Rightarrow> string \<Rightarrow> string \<Rightarrow> string \<Rightarrow> string
     \<Rightarrow> ClientOptions option \<Rightarrow> panic + (client option \<times> err option)" where
  "New E dbg host user pass grp opts =
     (if host = [] \<or> user = [] \<or> pass = [] then Inr (None, Some errNewClient)
      else (let c = newClient host user pass grp opts
            in case Get E c dbg ''/platform/latest'' [] [] [] (Some \<lparr>Latest = None\<rparr>) of
                 Inl pn \<Rightarrow> Inl pn
               | Inr (e, resp) \<Rightarrow>
                   (case probeFailed e of
                      Inl pn \<Rightarrow> Inl pn
                    | Inr True \<Rightarrow> Inr (None, e)
                    | Inr False \<Rightarrow>
                        (case resp of
                           None \<Rightarrow> Inl NilDereference
                         | Some r \<Rightarrow>
                             (case setVersion c (Latest r) of
                                Inl e' \<Rightarrow> Inr (None, Some e')
                              | Inr c' \<Rightarrow>
                                  if apiVersion c' < 3
                                  then Inr (None, Some (ErrorString
                                         ''OneFS releases older than 8.0 are no longer supported''))
                                  else Inr (Some c', None))))))"

subsection \<open>Volume paths\<close>

text \<open>
  \<^verbatim>\<open>path.Clean\<close> and \<^verbatim>\<open>path.Join\<close> of Go's library, which \<^verbatim>\<open>VolumePath\<close> calls. The buffer
  \<^verbatim>\<open>out\<close> is the text written so far, \<^verbatim>\<open>dotdot\<close> the length below which \<^verbatim>\<open>..\<close> may not cut.
  \<open>dropToSlash\<close> is the inner loop \<^verbatim>\<open>for out.w > dotdot && out.index(out.w) != '/' { out.w-- }\<close>
  as a function of \<^verbatim>\<open>out.w\<close>: at 0 the test \<^verbatim>\<open>out.w > dotdot\<close> fails.
\<close>

fun dropToSlash :: "string \<Rightarrow> nat \<Rightarrow> nat \<Rightarrow> nat" where
  "dropToSlash out dotdot 0 = 0"
| "dropToSlash out dotdot (Suc w) =
     (if Suc w > dotdot \<and> out ! Suc w \<noteq> CHR ''/'' then dropToSlash out dotdot w else Suc w)"

definition backtrack :: "string \<Rightarrow> nat \<Rightarrow> string" where
  "backtrack out dotdot = take (dropToSlash out dotdot (length out - 1)) out"

function cleanLoop :: "bool \<Rightarrow> string \<Rightarrow> string \<Rightarrow> nat \<Rightarrow> string" where
  "cleanLoop rooted [] out dotdot = out"
| "cleanLoop rooted (c # rest) out dotdot =
     (if c = CHR ''/'' then cleanLoop rooted rest out dotdot
      else if c = CHR ''.'' \<and> (rest = [] \<or> hd rest = CHR ''/'')
      then cleanLoop rooted rest out dotdot
      else if c = CHR ''.'' \<and> hd rest = CHR ''.'' \<and> (tl rest = [] \<or> hd (tl rest) = CHR ''/'')
      then (if length out > dotdot
            then cleanLoop rooted (tl rest) (backtrack out dotdot) dotdot
            else if \<not> rooted
            then (let out1 = (if length out > 0 then out @ ''/'' else out) @ ''..''
                  in cleanLoop rooted (tl rest) out1 (length out1))
            else cleanLoop rooted (tl rest) out dotdot)
      else (let out1 = (if rooted \<and> length out \<noteq> 1 \<or> \<not> rooted \<and> length out \<noteq> 0
                        then out @ ''/'' else out)
            in cleanLoop rooted (dropWhile (\<lambda>x. x \<noteq> CHR ''/'') rest)
                 (out1 @ c # takeWhile (\<lambda>x. x \<noteq> CHR ''/'') rest) dotdot))"
  by pat_completeness auto
termination
  by (relation "measure (\<lambda>(rooted, inp, out, dotdot). length inp)")
     (auto simp: le_imp_less_Suc length_dropWhile_le)

definition Clean :: "string \<Rightarrow> string" where
  "Clean path =
     (if path = [] then ''.''
      else (let out = (if hd path = CHR ''/'' then cleanLoop True (tl path) ''/'' 1
                       else cleanLoop False path [] 0)
            in if out = [] then ''.'' else out))"

fun joinBuf :: "string \<Rightarrow> string list \<Rightarrow> string" where
  "joinBuf buf [] = buf"
| "joinBuf buf (e # es) =
     (if length buf > 0 \<or> e \<noteq> []
      then joinBuf ((if length buf > 0 then buf @ ''/'' else buf) @ e) es
      else joinBuf buf es)"

definition Join :: "string list \<Rightarrow> string" where
  "Join elem = (if sum_list (map length elem) = 0 then [] else Clean (joinBuf [] elem))"

definition VolumePath :: "client \<Rightarrow> string \<Rightarrow> string" where
  "VolumePath c volumeName = Join [volumePath c, volumeName]"

definition VolumesPath :: "client \<Rightarrow> string" where
  "VolumesPath c = volumePath c"

subsection \<open>The client as the wrappers see it\<close>

text \<open>
  The wrappers of \<^verbatim>\<open>api/v1\<close> take an \<^verbatim>\<open>api.Client\<close>, an interface. What a call through it
  does is up to the implementation and the appliance behind it: here a call appends
  itself to the list of calls made so far, and \<open>respond\<close> (any function of that history
  and the call) says whether it panics, which error it returns and what it leaves in the
  output value. A nil \<^verbatim>\<open>OrderedValues\<close> is the empty list, a nil header map the empty map.
\<close>

record 'b call =
  callMethod :: string
  callPath :: string
  callId :: string
  callParams :: OrderedValues
  callHeaders :: "string \<rightharpoonup> string"
  callBody :: "'b option"

record ('b, 'r) Client =
  respond :: "'b call list \<Rightarrow> 'b call \<Rightarrow> 'r \<Rightarrow> panic + (err option \<times> 'r)"
  User :: string
  Group :: string
  clientVolumesPath :: string

definition invoke ::
  "('b, 'r) Client \<Rightarrow> 'b call \<Rightarrow> 'r \<Rightarrow> 'b call list
     \<Rightarrow> (panic + (err option \<times> 'r)) \<times> 'b call list" where
  "invoke cl c resp tr = (respond cl tr c resp, tr @ [c])"

definition Client_Get ::
  "('b, 'r) Client \<Rightarrow> string \<Rightarrow> string \<Rightarrow> OrderedValues \<Rightarrow> (string \<rightharpoonup> string) \<Rightarrow> 'r
     \<Rightarrow> 'b call list \<Rightarrow> (panic + (err option \<times> 'r)) \<times> 'b call list" where
  "Client_Get cl pth ident params headers resp tr =
     invoke cl \<lparr>callMethod = ''GET'', callPath = pth, callId = ident, callParams = params,
                callHeaders = headers, callBody = None\<rparr> resp tr"


subsection \<open>Volumes (api/v1)\<close>








subsection \<open>Quotas (api/v1)\<close>

text \<open>\<^verbatim>\<open>IsiQuota\<close> and \<^verbatim>\<open>isiQuotaListResp\<close> are declared outside these sources; the fields
  are the ones the code reads.\<close>

record IsiQuota =
  quotaId :: string
  quotaPathOf :: string

record isiQuotaListResp =
  Quotas :: "IsiQuota list"

definition byteArrPath :: string where
  "byteArrPath = ''path''"

text \<open>\<^verbatim>\<open>for _, quota := range quotaResp.Quotas\<close> and the \<^verbatim>\<open>return\<close> after it.\<close>

fun findQuota :: "string \<Rightarrow> IsiQuota list \<Rightarrow> IsiQuota option \<times> err option" where
  "findQuota pth [] = (None, Some (ErrorString (''Quota not found: '' @ pth)))"
| "findQuota pth (quota # rest) =
     (if quotaPathOf quota = pth then (Some quota, None) else findQuota pth rest)"

text \<open>\<^verbatim>\<open>GetIsiQuota\<close>; the constant \<^verbatim>\<open>quotaPath\<close> is defined outside these sources and is a
  parameter.\<close>

definition GetIsiQuota ::
  "string \<Rightarrow> ('b, isiQuotaListResp) Client \<Rightarrow> string \<Rightarrow> 'b call list
     \<Rightarrow> (panic + (IsiQuota option \<times> err option)) \<times> 'b call list" where
  "GetIsiQuota quotaPath cl pth tr =
     (case Client_Get cl quotaPath [] [[byteArrPath, pth]] Map.empty \<lparr>Quotas = []\<rparr> tr of
        (Inl pn, tr1) \<Rightarrow> (Inl pn, tr1)
      | (Inr (Some e, _), tr1) \<Rightarrow> (Inr (None, Some e), tr1)
      | (Inr (None, quotaResp), tr1) \<Rightarrow> (Inr (findQuota pth (Quotas quotaResp)), tr1))"

subsection \<open>Snapshots (the facade)\<close>

text \<open>
  \<^verbatim>\<open>IsiSnapshot\<close> and the three functions of \<^verbatim>\<open>api/v1\<close> the facade calls are outside these
  sources. A snapshot has the fields the facade reads; \<^verbatim>\<open>SnapshotList\<close> is a slice of
  pointers, each of which may be nil. The three functions are parameters that answer a
  call given the calls made before it.
\<close>

record IsiSnapshot =
  snapId :: int
  snapName :: string
  snapPath :: string

type_synonym Snapshot = "IsiSnapshot option"

type_synonym SnapshotList = "Snapshot list"

record getIsiSnapshotsResp =
  SnapshotList :: SnapshotList

datatype apiCall = CallGetIsiSnapshot int | CallGetIsiSnapshots | CallRemoveIsiSnapshot int

record snapshotAPI =
  GetIsiSnapshot :: "apiCall list \<Rightarrow> int \<Rightarrow> panic + (Snapshot \<times> err option)"
  GetIsiSnapshots :: "apiCall list \<Rightarrow> panic + (getIsiSnapshotsResp option \<times> err option)"
  RemoveIsiSnapshot :: "apiCall list \<Rightarrow> int \<Rightarrow> panic + err option"

definition GetSnapshots ::
  "snapshotAPI \<Rightarrow> apiCall list \<Rightarrow> (panic + (SnapshotList \<times> err option)) \<times> apiCall list" where
  "GetSnapshots api tr =
     (let tr1 = tr @ [CallGetIsiSnapshots]
      in case GetIsiSnapshots api tr of
           Inl pn \<Rightarrow> (Inl pn, tr1)
         | Inr (_, Some e) \<Rightarrow> (Inr ([], Some e), tr1)
         | Inr (None, None) \<Rightarrow> (Inl NilDereference, tr1)
         | Inr (Some snapshots, None) \<Rightarrow> (Inr (SnapshotList snapshots, None), tr1))"

text \<open>\<^verbatim>\<open>for _, snapshot = range snapshotList\<close> and the \<^verbatim>\<open>return nil, nil\<close> after it;
  \<^verbatim>\<open>snapshot.Name\<close> of a nil entry panics.\<close>

fun matchName :: "string \<Rightarrow> SnapshotList \<Rightarrow> panic + (Snapshot \<times> err option)" where
  "matchName name [] = Inr (None, None)"
| "matchName name (None # rest) = Inl NilDereference"
| "matchName name (Some snapshot # rest) =
     (if snapName snapshot = name then Inr (Some snapshot, None) else matchName name rest)"

definition GetSnapshot ::
  "snapshotAPI \<Rightarrow> int \<Rightarrow> string \<Rightarrow> apiCall list
     \<Rightarrow> (panic + (Snapshot \<times> err option)) \<times> apiCall list" where
  "GetSnapshot api ident name tr =
     (let tr1 = tr @ [CallGetIsiSnapshot ident]
      in case GetIsiSnapshot api tr ident of
           Inl pn \<Rightarrow> (Inl pn, tr1)
         | Inr (snapshot, None) \<Rightarrow> (Inr (snapshot, None), tr1)
         | Inr (_, Some e) \<Rightarrow>
             if name = [] then (Inr (None, Some e), tr1)
             else (case GetSnapshots api tr1 of
                     (Inl pn, tr2) \<Rightarrow> (Inl pn, tr2)
                   | (Inr (_, Some e2), tr2) \<Rightarrow> (Inr (None, Some e2), tr2)
                   | (Inr (snapshotList, None), tr2) \<Rightarrow> (matchName name snapshotList, tr2)))"

definition RemoveSnapshot ::
  "snapshotAPI \<Rightarrow> int \<Rightarrow> string \<Rightarrow> apiCall list \<Rightarrow> (panic + err option) \<times> apiCall list" where
  "RemoveSnapshot api ident name tr =
     (case GetSnapshot api ident name tr of
        (Inl pn, tr1) \<Rightarrow> (Inl pn, tr1)
      | (Inr (_, Some e), tr1) \<Rightarrow> (Inr (Some e), tr1)
      | (Inr (None, None), tr1) \<Rightarrow> (Inl NilDereference, tr1)
      | (Inr (Some snapshot, None), tr1) \<Rightarrow>
          (RemoveIsiSnapshot api tr1 (snapId snapshot), tr1 @ [CallRemoveIsiSnapshot (snapId snapshot)]))"

subsection \<open>Vocabulary of the statements and sample inputs\<close>

text \<open>The number of consecutive slashes of \<open>s\<close> that start at position \<open>i\<close>.\<close>

definition slashesAt :: "string \<Rightarrow> nat \<Rightarrow> nat" where
  "slashesAt s i = length (takeWhile (\<lambda>c. c = CHR ''/'') (drop i s))"

text \<open>A path segment that is a name: not empty, without a slash, neither \<^verbatim>\<open>.\<close> nor \<^verbatim>\<open>..\<close>;
  segments joined by single slashes; the rooted path of a list of segments.\<close>

definition plain :: "string \<Rightarrow> bool" where
  "plain e = (e \<noteq> [] \<and> CHR ''/'' \<notin> set e \<and> e \<noteq> ''.'' \<and> e \<noteq> ''..'')"

fun joinSegs :: "string list \<Rightarrow> string" where
  "joinSegs [] = []"
| "joinSegs [e] = e"
| "joinSegs (e # e' # es) = e @ ''/'' @ joinSegs (e' # es)"

definition rootedPath :: "string list \<Rightarrow> string" where
  "rootedPath segs = ''/'' @ joinSegs segs"

text \<open>An appliance that answers every request with \<open>res\<close>, decodes with \<open>dec\<close> and
  \<open>decE\<close>, and whose other parts always succeed; a client for it.\<close>

definition fixedEnv ::
  "response \<Rightarrow> (string \<Rightarrow> 'r \<Rightarrow> err option \<times> 'r) \<Rightarrow> (string \<Rightarrow> JSONError \<Rightarrow> err option \<times> JSONError)
     \<Rightarrow> (string, 'r) env" where
  "fixedEnv res dec decE =
     \<lparr>encodeTo = (\<lambda>_. Inr []), urlParse = Inr, jsonEncode = Inr, jsonDecode = dec,
      jsonDecodeError = decE, newRequestError = (\<lambda>_ _. None), basicAuth = (\<lambda>u p. u @ '':'' @ p),
      httpDo = (\<lambda>_. Inr res)\<rparr>"

definition sampleClient :: client where
  "sampleClient = newClient ''https://1.2.3.4:8080'' ''admin'' ''secret'' [] None"


definition quotaClient :: "(unit, isiQuotaListResp) Client" where
  "quotaClient =
     \<lparr>respond = (\<lambda>tr c resp. Inr (None, \<lparr>Quotas = [\<lparr>quotaId = ''q1'', quotaPathOf = ''/ifs/volumes/a''\<rparr>,
                                                     \<lparr>quotaId = ''q2'', quotaPathOf = ''/ifs/volumes/b''\<rparr>]\<rparr>)),
      User = ''admin'', Group = [], clientVolumesPath = ''/ifs/volumes''\<rparr>"

text \<open>Three snapshots, and an appliance that knows no snapshot id and lists the three.\<close>

definition sampleSnapshots :: "IsiSnapshot list" where
  "sampleSnapshots = [\<lparr>snapId = 7, snapName = ''nightly'', snapPath = ''/ifs/volumes/a''\<rparr>,
                      \<lparr>snapId = 9, snapName = ''weekly'', snapPath = ''/ifs/volumes/a''\<rparr>,
                      \<lparr>snapId = 12, snapName = ''weekly'', snapPath = ''/ifs/volumes/b''\<rparr>]"

definition sampleAPI :: snapshotAPI where
  "sampleAPI = \<lparr>GetIsiSnapshot = (\<lambda>tr i. Inr (None, Some (ErrorString ''not found''))),
                GetIsiSnapshots = (\<lambda>tr. Inr (Some \<lparr>SnapshotList = map Some sampleSnapshots\<rparr>, None)),
                RemoveIsiSnapshot = (\<lambda>tr i. Inr None)\<rparr>"

section \<open>Properties\<close>

subsection \<open>URL assembly\<close>

lemma slashesAt_one:
  assumes "r = [] \<or> hd r \<noteq> CHR ''/''"
  shows "slashesAt (l @ ''/'' @ r) (length l) = 1"
  using assms by (cases r) (auto simp: slashesAt_def)

lemma urlPath_empty_uri_panics: "urlPath host [] ident = Inl IndexOutOfRange"
  by (simp add: urlPath_def endsWithSlash_def beginsWithSlash_def)

text \<open>
  C2 (as amended). Let the hostname be \<open>h0\<close> with or without one trailing slash and the
  path be \<open>p0\<close> with or without one leading and one trailing slash, where \<open>h0\<close> and \<open>p0\<close>
  are not empty and carry no slash at those ends, and let the id not begin with a slash.
  Then the assembled URL is \<open>h0/p0/id\<close>: exactly one slash stands where the hostname
  ends and exactly one where the path ends.
\<close>

theorem urlPath_one_slash_each:
  assumes h0: "h0 \<noteq> []" "last h0 \<noteq> CHR ''/''"
      and p0: "p0 \<noteq> []" "hd p0 \<noteq> CHR ''/''" "last p0 \<noteq> CHR ''/''"
      and i0: "ident = [] \<or> hd ident \<noteq> CHR ''/''"
  shows "urlPath (h0 @ (if a then ''/'' else [])) ((if b then ''/'' else []) @ p0 @ (if c then ''/'' else []))
             ident
           = Inr (h0 @ ''/'' @ p0 @ ''/'' @ ident)
         \<and> slashesAt (h0 @ ''/'' @ p0 @ ''/'' @ ident) (length h0) = 1
         \<and> slashesAt (h0 @ ''/'' @ p0 @ ''/'' @ ident) (length h0 + 1 + length p0) = 1"
proof -
  let ?host = "h0 @ (if a then ''/'' else [])"
  let ?uri = "(if b then ''/'' else []) @ p0 @ (if c then ''/'' else [])"
  have e1: "endsWithSlash ?host = Inr a"
    using h0 by (simp add: endsWithSlash_def)
  have e2: "beginsWithSlash ?uri = Inr b"
    using p0 by (cases p0) (auto simp: beginsWithSlash_def)
  have e3: "endsWithSlash ?uri = Inr c"
    using p0 by (simp add: endsWithSlash_def)
  have u: "urlPath ?host ?uri ident = Inr (h0 @ ''/'' @ p0 @ ''/'' @ ident)"
    unfolding urlPath_def e1 e2 e3 using p0(1) by (simp add: Let_def)
  have s1: "slashesAt (h0 @ ''/'' @ (p0 @ ''/'' @ ident)) (length h0) = 1"
    by (rule slashesAt_one) (use p0 in \<open>cases p0; simp\<close>)
  have s2: "slashesAt ((h0 @ ''/'' @ p0) @ ''/'' @ ident) (length (h0 @ ''/'' @ p0)) = 1"
    by (rule slashesAt_one) (rule i0)
  show ?thesis using u s1 s2 by simp
qed

theorem urlPath_one_slash_each_witness:
  "urlPath ''https://1.2.3.4:8080'' ''/platform/1/quota/quotas'' ''abc''
     = Inr ''https://1.2.3.4:8080/platform/1/quota/quotas/abc''
   \<and> slashesAt ''https://1.2.3.4:8080/platform/1/quota/quotas/abc''
         (length ''https://1.2.3.4:8080'') = 1
   \<and> slashesAt ''https://1.2.3.4:8080/platform/1/quota/quotas/abc''
         (length ''https://1.2.3.4:8080'' + 1 + length ''platform/1/quota/quotas'') = 1"
  using urlPath_one_slash_each [of "''https://1.2.3.4:8080''" "''platform/1/quota/quotas''" "''abc''"
      False True False]
  by simp

text \<open>
  C2 as stated fails: an id that begins with a slash is written as it is, so two slashes
  stand between the path and the id.
\<close>

theorem urlPath_id_slash_counterexample:
  "urlPath ''https://1.2.3.4:8080'' ''/platform/1/quota/quotas'' ''/abc''
     = Inr ''https://1.2.3.4:8080/platform/1/quota/quotas//abc''
   \<and> slashesAt ''https://1.2.3.4:8080/platform/1/quota/quotas//abc''
         (length ''https://1.2.3.4:8080'' + 1 + length ''platform/1/quota/quotas'') = 2"
  by (simp add: urlPath_def endsWithSlash_def beginsWithSlash_def slashesAt_def)

subsection \<open>Responses\<close>

lemma sample_send:
  "DoAndGetResponseBody (fixedEnv res dec decE) sampleClient False ''GET'' ''/platform/latest'' [] [] [] None
     = Inr (Some res, False, None)"
  by (simp add: DoAndGetResponseBody_def urlBuffer_def urlPath_def endsWithSlash_def
      beginsWithSlash_def sampleClient_def newClient_def fixedEnv_def buildRequest_def NewRequest_def
      sendRequest_def Let_def)

lemma parseJSONError_first_message:
  assumes "Decode (jsonDecodeError E) (resBody r) \<lparr>StatusCode = 0, Err = []\<rparr> = (None, je)"
      and "Err je = x # xs"
  shows "\<exists>e. parseJSONError E r = Inr e
           \<and> Error_text e = Inr (if Message x = [] then resStatus r else Message x)"
  using assms by (simp add: parseJSONError_def Error_text_def)

lemma parseJSONError_decode_error:
  assumes "Decode (jsonDecodeError E) (resBody r) \<lparr>StatusCode = 0, Err = []\<rparr> = (Some e, je)"
  shows "parseJSONError E r = Inr e"
  using assms by (simp add: parseJSONError_def)

lemma parseJSONError_empty_list:
  assumes "Decode (jsonDecodeError E) (resBody r) \<lparr>StatusCode = 0, Err = []\<rparr> = (None, je)"
      and "Err je = []"
  shows "parseJSONError E r = Inl IndexOutOfRange"
  using assms by (simp add: parseJSONError_def)

text \<open>With a list of errors that is not empty, a response outside 200 to 299 gives the
  error C1 describes.\<close>

lemma DoWithHeaders_error_message:
  assumes "DoAndGetResponseBody E c dbg meth uri ident params headers b = Inr (Some res, d, None)"
      and "\<not> (200 \<le> resStatusCode res \<and> resStatusCode res \<le> 299)"
      and "Decode (jsonDecodeError E) (resBody res) \<lparr>StatusCode = 0, Err = []\<rparr> = (None, je)"
      and "Err je = x # xs"
  shows "\<exists>e. DoWithHeaders E c dbg meth uri ident params headers b resp = Inr (Some e, resp)
           \<and> Error_text e = Inr (if Message x = [] then resStatus res else Message x)"
  using assms by (auto simp: DoWithHeaders_def parseJSONError_def Error_text_def)

text \<open>
  C1, at the input where the code leaves it: a response with status 500 whose body \<^verbatim>\<open>{}\<close>
  decodes without error to a \<^verbatim>\<open>JSONError\<close> with no entries. \<^verbatim>\<open>parseJSONError\<close> indexes
  \<^verbatim>\<open>jsonError.Err[0]\<close> and \<^verbatim>\<open>DoWithHeaders\<close> panics instead of returning an error.
\<close>

theorem DoWithHeaders_empty_error_list_panics:
  "DoWithHeaders
     (fixedEnv \<lparr>resStatusCode = 500, resStatus = ''500 Internal Server Error'', resBody = ''{}''\<rparr>
        (\<lambda>b v. (None, v)) (\<lambda>b v. (None, v)))
     sampleClient False ''GET'' ''/platform/latest'' [] [] [] None (Some ())
   = Inl IndexOutOfRange"
  unfolding DoWithHeaders_def sample_send
  by (simp add: parseJSONError_def Decode_def fixedEnv_def)

text \<open>
  C3. When the response has a status from 200 to 299 and an empty body and \<^verbatim>\<open>resp\<close> is
  not nil, \<^verbatim>\<open>DoWithHeaders\<close> returns the nil error and \<^verbatim>\<open>resp\<close> points to the value it
  pointed to before the call.
\<close>

theorem DoWithHeaders_empty_body:
  assumes "DoAndGetResponseBody E c dbg meth uri ident params headers b = Inr (Some res, d, None)"
      and "200 \<le> resStatusCode res" and "resStatusCode res \<le> 299"
      and "resBody res = []"
  shows "DoWithHeaders E c dbg meth uri ident params headers b (Some v) = Inr (None, Some v)"
  using assms by (simp add: DoWithHeaders_def Decode_def)

theorem DoWithHeaders_empty_body_witness:
  "DoWithHeaders
     (fixedEnv \<lparr>resStatusCode = 204, resStatus = ''204 No Content'', resBody = []\<rparr>
        (\<lambda>b v. (Some (ErrorString ''json: unexpected''), \<not> v)) (\<lambda>b v. (None, v)))
     sampleClient False ''GET'' ''/platform/latest'' [] [] [] None (Some True)
   = Inr (None, Some True)"
  using DoWithHeaders_empty_body [OF sample_send, where v = True] by simp

subsection \<open>Request bodies and their content type\<close>









text \<open>A failed \<^verbatim>\<open>http.NewRequest\<close> with a body that is not nil is a panic, not an error.\<close>

lemma buildRequest_NewRequest_fails:
  assumes "newRequestError E meth u = Some e"
  shows "buildRequest E c meth u headers (Some (ReadCloser r)) = Inl NilDereference"
  using assms by (simp add: buildRequest_def NewRequest_def)



subsection \<open>Client construction\<close>

lemma New_client_version:
  assumes "New E dbg host user pass grp opts = Inr (Some c', e')"
  shows "3 \<le> apiVersion c' \<and> e' = None"
  using assms
  by (auto simp: New_def Let_def split: if_splits sum.splits prod.splits bool.splits option.splits)

lemma setVersion_sample:
  "setVersion sampleClient (Some ''2.1'') = Inr (sampleClient\<lparr>apiMinorVersion := 1, apiVersion := 2\<rparr>)"
  by (simp add: setVersion_def IndexByte_def ParseUint8_def isDigit_def Let_def)

text \<open>
  C8. Let the version probe return (with an error that does not end the construction, or
  with none). If the major version \<^verbatim>\<open>New\<close> takes from the probe's answer is below 3,
  \<^verbatim>\<open>New\<close> returns a nil client and an error. If the answer has no version string, the major
  version is 2, and \<^verbatim>\<open>New\<close> returns a nil client and an error.
\<close>

theorem New_old_version_fails:
  assumes probe: "Get E (newClient host user pass grp opts) dbg ''/platform/latest'' [] [] []
                    (Some \<lparr>Latest = None\<rparr>) = Inr (e, Some resp)"
      and nf: "probeFailed e = Inr fatal"
  shows "(\<forall>c'. setVersion (newClient host user pass grp opts) (Latest resp) = Inr c' \<and> apiVersion c' < 3
            \<longrightarrow> (\<exists>e'. New E dbg host user pass grp opts = Inr (None, Some e')))
       \<and> (Latest resp = None
            \<longrightarrow> setVersion (newClient host user pass grp opts) (Latest resp)
                  = Inr ((newClient host user pass grp opts)\<lparr>apiVersion := 2\<rparr>)
                \<and> (\<exists>e'. New E dbg host user pass grp opts = Inr (None, Some e')))"
proof -
  have fatal: "fatal \<Longrightarrow> \<exists>x. e = Some x"
    using nf by (cases e) (auto simp: probeFailed_def)
  have old: "\<exists>e'. New E dbg host user pass grp opts = Inr (None, Some e')"
    if "setVersion (newClient host user pass grp opts) (Latest resp) = Inr c'" "apiVersion c' < 3" for c'
    using that probe nf fatal by (cases fatal) (auto simp: New_def Let_def)
  have none: "setVersion c0 None = Inr (c0\<lparr>apiVersion := 2\<rparr>)" for c0
    by (simp add: setVersion_def)
  have two: "apiVersion (c0\<lparr>apiVersion := 2\<rparr>) < 3" for c0 :: client
    by simp
  show ?thesis using old none two by auto
qed

theorem New_old_version_fails_witness:
  "(\<exists>e'. New (fixedEnv \<lparr>resStatusCode = 200, resStatus = ''200 OK'', resBody = ''{ }''\<rparr>
             (\<lambda>b v. (None, v\<lparr>Latest := Some ''2.1''\<rparr>)) (\<lambda>b v. (None, v)))
           False ''https://1.2.3.4:8080'' ''admin'' ''secret'' [] None = Inr (None, Some e'))
   \<and> (\<exists>e'. New (fixedEnv \<lparr>resStatusCode = 200, resStatus = ''200 OK'', resBody = ''{ }''\<rparr>
             (\<lambda>b v. (None, v)) (\<lambda>b v. (None, v)))
           False ''https://1.2.3.4:8080'' ''admin'' ''secret'' [] None = Inr (None, Some e'))"
proof -
  let ?res = "\<lparr>resStatusCode = 200, resStatus = ''200 OK'', resBody = ''{ }''\<rparr>"
  let ?E1 = "fixedEnv ?res (\<lambda>b v. (None, v\<lparr>Latest := Some ''2.1''\<rparr>)) (\<lambda>b v. (None, v))
               :: (string, apiVerResponse) env"
  let ?E2 = "fixedEnv ?res (\<lambda>b v. (None, v)) (\<lambda>b v. (None, v)) :: (string, apiVerResponse) env"
  let ?c = "newClient ''https://1.2.3.4:8080'' ''admin'' ''secret'' [] None"
  have p1: "Get ?E1 ?c False ''/platform/latest'' [] [] [] (Some \<lparr>Latest = None\<rparr>)
              = Inr (None, Some \<lparr>Latest = Some ''2.1''\<rparr>)"
    unfolding Get_def DoWithHeaders_def sample_send [unfolded sampleClient_def]
    by (simp add: Decode_def fixedEnv_def)
  have p2: "Get ?E2 ?c False ''/platform/latest'' [] [] [] (Some \<lparr>Latest = None\<rparr>)
              = Inr (None, Some \<lparr>Latest = None\<rparr>)"
    unfolding Get_def DoWithHeaders_def sample_send [unfolded sampleClient_def]
    by (simp add: Decode_def fixedEnv_def)
  have f: "probeFailed None = Inr False" by (simp add: probeFailed_def)
  have a: "\<exists>e'. New ?E1 False ''https://1.2.3.4:8080'' ''admin'' ''secret'' [] None = Inr (None, Some e')"
    using New_old_version_fails [OF p1 f] setVersion_sample [unfolded sampleClient_def] by simp
  have b: "\<exists>e'. New ?E2 False ''https://1.2.3.4:8080'' ''admin'' ''secret'' [] None = Inr (None, Some e')"
    using New_old_version_fails [OF p2 f] by simp
  show ?thesis using a b by blast
qed

subsection \<open>Volumes and quotas\<close>



lemma findQuota_found:
  assumes "\<exists>q \<in> set qs. quotaPathOf q = pth"
  shows "\<exists>q. findQuota pth qs = (Some q, None) \<and> q \<in> set qs \<and> quotaPathOf q = pth"
  using assms by (induction qs) auto

lemma findQuota_first:
  "findQuota pth qs = (Some q, None) \<longleftrightarrow> List.find (\<lambda>q. quotaPathOf q = pth) qs = Some q"
  by (induction qs) auto

lemma findQuota_missing:
  assumes "\<not> (\<exists>q \<in> set qs. quotaPathOf q = pth)"
  shows "findQuota pth qs = (None, Some (ErrorString (''Quota not found: '' @ pth)))"
  using assms by (induction qs) auto

text \<open>
  C7. Let the GET for the quotas of a path return a list without error. If the list holds
  a quota whose path is the queried path, \<^verbatim>\<open>GetIsiQuota\<close> returns such a quota of the list
  and no error; otherwise it returns a nil quota and an error whose text is
  \<^verbatim>\<open>Quota not found: \<close> followed by the queried path.
\<close>

theorem GetIsiQuota_by_path:
  assumes "respond cl tr \<lparr>callMethod = ''GET'', callPath = quotaPath, callId = [],
             callParams = [[''path'', pth]], callHeaders = Map.empty, callBody = None\<rparr> \<lparr>Quotas = []\<rparr>
           = Inr (None, quotaResp)"
  shows "\<exists>quota e tr'. GetIsiQuota quotaPath cl pth tr = (Inr (quota, e), tr')
           \<and> (if \<exists>q \<in> set (Quotas quotaResp). quotaPathOf q = pth
               then \<exists>q. quota = Some q \<and> e = None \<and> q \<in> set (Quotas quotaResp) \<and> quotaPathOf q = pth
               else quota = None \<and> e = Some (ErrorString (''Quota not found: '' @ pth))
                    \<and> Error_text (ErrorString (''Quota not found: '' @ pth))
                        = Inr (''Quota not found: '' @ pth))"
  using assms findQuota_found [of "Quotas quotaResp" pth] findQuota_missing [of "Quotas quotaResp" pth]
  by (auto simp: GetIsiQuota_def Client_Get_def invoke_def byteArrPath_def Error_text_def)

theorem GetIsiQuota_by_path_witness:
  "(\<exists>quota e tr'. GetIsiQuota ''platform/1/quota/quotas'' quotaClient ''/ifs/volumes/b'' [] = (Inr (quota, e), tr')
      \<and> (\<exists>q. quota = Some q \<and> e = None \<and> quotaPathOf q = ''/ifs/volumes/b''))
   \<and> (\<exists>quota e tr'. GetIsiQuota ''platform/1/quota/quotas'' quotaClient ''/ifs/volumes/c'' [] = (Inr (quota, e), tr')
      \<and> quota = None \<and> e = Some (ErrorString ''Quota not found: /ifs/volumes/c''))"
proof -
  let ?resp = "\<lparr>Quotas = [\<lparr>quotaId = ''q1'', quotaPathOf = ''/ifs/volumes/a''\<rparr>,
                            \<lparr>quotaId = ''q2'', quotaPathOf = ''/ifs/volumes/b''\<rparr>]\<rparr>"
  have r: "respond quotaClient [] \<lparr>callMethod = ''GET'', callPath = ''platform/1/quota/quotas'', callId = [],
             callParams = [[''path'', pth]], callHeaders = Map.empty, callBody = None\<rparr> \<lparr>Quotas = []\<rparr>
           = Inr (None, ?resp)" for pth
    by (simp add: quotaClient_def)
  have a: "\<exists>quota e tr'. GetIsiQuota ''platform/1/quota/quotas'' quotaClient ''/ifs/volumes/b'' [] = (Inr (quota, e), tr')
      \<and> (\<exists>q. quota = Some q \<and> e = None \<and> quotaPathOf q = ''/ifs/volumes/b'')"
    using GetIsiQuota_by_path [OF r [of "''/ifs/volumes/b''"]] by simp blast
  have b: "\<exists>quota e tr'. GetIsiQuota ''platform/1/quota/quotas'' quotaClient ''/ifs/volumes/c'' [] = (Inr (quota, e), tr')
      \<and> quota = None \<and> e = Some (ErrorString ''Quota not found: /ifs/volumes/c'')"
    using GetIsiQuota_by_path [OF r [of "''/ifs/volumes/c''"]] by simp
  show ?thesis using a b by blast
qed

subsection \<open>Snapshots\<close>

lemma matchName_first:
  assumes "snapName s = name" and "\<forall>p \<in> set pre. snapName p \<noteq> name"
  shows "matchName name (map Some pre @ Some s # rest) = Inr (Some s, None)"
  using assms by (induction pre) auto

lemma matchName_none:
  assumes "\<forall>x \<in> set xs. snapName x \<noteq> name"
  shows "matchName name (map Some xs) = Inr (None, None)"
  using assms by (induction xs) auto

text \<open>
  C6. Let the lookup by id return an error \<open>e\<close>. If the name is empty, \<^verbatim>\<open>GetSnapshot\<close>
  returns a nil snapshot and \<open>e\<close>, and has made no other call. If the name is not empty,
  \<^verbatim>\<open>GetSnapshot\<close> asks for the list of all snapshots, and when the list comes back and
  holds a snapshot with that name, it returns the first such snapshot of the list and no
  error.
\<close>

theorem GetSnapshot_fallback:
  assumes idfail: "GetIsiSnapshot api tr ident = Inr (s0, Some e)"
  shows "(name = [] \<longrightarrow>
            GetSnapshot api ident name tr = (Inr (None, Some e), tr @ [CallGetIsiSnapshot ident]))
       \<and> (name \<noteq> [] \<longrightarrow>
            snd (GetSnapshot api ident name tr) = tr @ [CallGetIsiSnapshot ident, CallGetIsiSnapshots]
            \<and> (\<forall>resp pre s rest.
                  GetIsiSnapshots api (tr @ [CallGetIsiSnapshot ident]) = Inr (Some resp, None)
                  \<and> SnapshotList resp = map Some pre @ Some s # rest
                  \<and> snapName s = name \<and> (\<forall>p \<in> set pre. snapName p \<noteq> name)
                  \<longrightarrow> fst (GetSnapshot api ident name tr) = Inr (Some s, None)))"
proof (intro conjI impI allI)
  assume "name = []"
  then show "GetSnapshot api ident name tr = (Inr (None, Some e), tr @ [CallGetIsiSnapshot ident])"
    using idfail by (simp add: GetSnapshot_def)
next
  assume "name \<noteq> []"
  then show "snd (GetSnapshot api ident name tr) = tr @ [CallGetIsiSnapshot ident, CallGetIsiSnapshots]"
    using idfail
    by (auto simp: GetSnapshot_def GetSnapshots_def Let_def split: sum.splits option.splits prod.splits)
next
  fix resp pre s rest
  assume n: "name \<noteq> []"
    and l: "GetIsiSnapshots api (tr @ [CallGetIsiSnapshot ident]) = Inr (Some resp, None)
            \<and> SnapshotList resp = map Some pre @ Some s # rest
            \<and> snapName s = name \<and> (\<forall>p \<in> set pre. snapName p \<noteq> name)"
  then have "matchName name (SnapshotList resp) = Inr (Some s, None)"
    using matchName_first [of s name pre rest] by simp
  then show "fst (GetSnapshot api ident name tr) = Inr (Some s, None)"
    using idfail n l by (simp add: GetSnapshot_def GetSnapshots_def Let_def)
qed

theorem GetSnapshot_fallback_witness:
  "GetSnapshot sampleAPI 3 [] [] = (Inr (None, Some (ErrorString ''not found'')), [CallGetIsiSnapshot 3])
   \<and> snd (GetSnapshot sampleAPI 3 ''weekly'' []) = [CallGetIsiSnapshot 3, CallGetIsiSnapshots]
   \<and> fst (GetSnapshot sampleAPI 3 ''weekly'' [])
       = Inr (Some \<lparr>snapId = 9, snapName = ''weekly'', snapPath = ''/ifs/volumes/a''\<rparr>, None)"
proof -
  let ?s1 = "\<lparr>snapId = 7, snapName = ''nightly'', snapPath = ''/ifs/volumes/a''\<rparr>"
  let ?s2 = "\<lparr>snapId = 9, snapName = ''weekly'', snapPath = ''/ifs/volumes/a''\<rparr>"
  let ?s3 = "\<lparr>snapId = 12, snapName = ''weekly'', snapPath = ''/ifs/volumes/b''\<rparr>"
  let ?resp = "\<lparr>SnapshotList = map Some sampleSnapshots\<rparr>"
  have f: "GetIsiSnapshot sampleAPI [] 3 = Inr (None, Some (ErrorString ''not found''))"
    by (simp add: sampleAPI_def)
  have l1: "GetIsiSnapshots sampleAPI ([] @ [CallGetIsiSnapshot 3]) = Inr (Some ?resp, None)"
    by (simp add: sampleAPI_def)
  have l2: "SnapshotList ?resp = map Some [?s1] @ Some ?s2 # [Some ?s3]"
    by (simp add: sampleSnapshots_def)
  have l3: "snapName ?s2 = ''weekly''" by simp
  have l4: "\<forall>p \<in> set [?s1]. snapName p \<noteq> ''weekly''" by simp
  note w = GetSnapshot_fallback [OF f, where name = "''weekly''"]
  have a: "GetSnapshot sampleAPI 3 [] [] = (Inr (None, Some (ErrorString ''not found'')), [CallGetIsiSnapshot 3])"
    using GetSnapshot_fallback [OF f, where name = "[]"] by simp
  have b: "snd (GetSnapshot sampleAPI 3 ''weekly'' []) = [CallGetIsiSnapshot 3, CallGetIsiSnapshots]"
    using w by simp
  have "\<forall>resp pre s rest.
          GetIsiSnapshots sampleAPI ([] @ [CallGetIsiSnapshot 3]) = Inr (Some resp, None)
          \<and> SnapshotList resp = map Some pre @ Some s # rest
          \<and> snapName s = ''weekly'' \<and> (\<forall>p \<in> set pre. snapName p \<noteq> ''weekly'')
          \<longrightarrow> fst (GetSnapshot sampleAPI 3 ''weekly'' []) = Inr (Some s, None)"
    using w by blast
  then have c: "fst (GetSnapshot sampleAPI 3 ''weekly'' []) = Inr (Some ?s2, None)"
    using l1 l2 l3 l4 by blast
  show ?thesis using a b c by blast
qed

text \<open>
  C9. Let the lookup by id return an error, the name be not empty, and the list of all
  snapshots come back without a snapshot of that name. Then \<^verbatim>\<open>GetSnapshot\<close> returns a nil
  snapshot and a nil error, and \<^verbatim>\<open>RemoveSnapshot\<close>, reading \<^verbatim>\<open>snapshot.Id\<close>, panics with a nil
  dereference; it returns no error and never calls \<^verbatim>\<open>RemoveIsiSnapshot\<close>.
\<close>

theorem RemoveSnapshot_nil_snapshot_panics:
  assumes idfail: "GetIsiSnapshot api tr ident = Inr (s0, Some e)"
      and name: "name \<noteq> []"
      and listing: "GetIsiSnapshots api (tr @ [CallGetIsiSnapshot ident]) = Inr (Some resp, None)"
      and nomatch: "SnapshotList resp = map Some xs" "\<forall>x \<in> set xs. snapName x \<noteq> name"
  shows "GetSnapshot api ident name tr
           = (Inr (None, None), tr @ [CallGetIsiSnapshot ident, CallGetIsiSnapshots])
       \<and> RemoveSnapshot api ident name tr
           = (Inl NilDereference, tr @ [CallGetIsiSnapshot ident, CallGetIsiSnapshots])"
proof -
  have "matchName name (SnapshotList resp) = Inr (None, None)"
    using nomatch matchName_none by simp
  then have g: "GetSnapshot api ident name tr
           = (Inr (None, None), tr @ [CallGetIsiSnapshot ident, CallGetIsiSnapshots])"
    using idfail name listing by (simp add: GetSnapshot_def GetSnapshots_def Let_def)
  then show ?thesis by (simp add: RemoveSnapshot_def)
qed

theorem RemoveSnapshot_nil_snapshot_panics_witness:
  "RemoveSnapshot sampleAPI 3 ''monthly'' [] = (Inl NilDereference, [CallGetIsiSnapshot 3, CallGetIsiSnapshots])"
proof -
  have f: "GetIsiSnapshot sampleAPI [] 3 = Inr (None, Some (ErrorString ''not found''))"
    by (simp add: sampleAPI_def)
  have l: "GetIsiSnapshots sampleAPI ([] @ [CallGetIsiSnapshot 3])
             = Inr (Some \<lparr>SnapshotList = map Some sampleSnapshots\<rparr>, None)"
    by (simp add: sampleAPI_def)
  have n: "\<forall>x \<in> set sampleSnapshots. snapName x \<noteq> ''monthly''"
    by (simp add: sampleSnapshots_def)
  show ?thesis
    using RemoveSnapshot_nil_snapshot_panics [OF f _ l _ n] by simp
qed

subsection \<open>Volume paths\<close>

lemma joinSegs_snoc: "segs \<noteq> [] \<Longrightarrow> joinSegs (segs @ [e]) = joinSegs segs @ ''/'' @ e"
  by (induction segs rule: joinSegs.induct) auto

lemma joinSegs_empty: "list_all plain segs \<Longrightarrow> joinSegs segs = [] \<longleftrightarrow> segs = []"
  by (induction segs rule: joinSegs.induct) (auto simp: plain_def)

lemma rootedPath_snoc:
  "rootedPath (segs @ [e]) = (if segs = [] then ''/'' @ e else rootedPath segs @ ''/'' @ e)"
  by (simp add: rootedPath_def joinSegs_snoc)

lemma rootedPath_length: "list_all plain segs \<Longrightarrow> length (rootedPath segs) = 1 \<longleftrightarrow> segs = []"
  using joinSegs_empty [of segs] by (auto simp: rootedPath_def)

text \<open>Where the inner loop of \<^verbatim>\<open>..\<close> stops: at the nearest position at or below \<open>w\<close> that
  holds a slash or is not above \<open>dotdot\<close>.\<close>

lemma dropToSlash_stop:
  assumes "k \<le> w" and "k \<le> dd \<or> out ! k = CHR ''/''"
      and "\<forall>i. k < i \<and> i \<le> w \<longrightarrow> dd < i \<and> out ! i \<noteq> CHR ''/''"
  shows "dropToSlash out dd w = k"
  using assms
proof (induction w)
  case 0
  then show ?case by simp
next
  case (Suc w)
  show ?case
  proof (cases "k = Suc w")
    case True
    then show ?thesis using Suc.prems(2) by auto
  next
    case False
    then have "k \<le> w" using Suc.prems(1) by simp
    moreover have "dd < Suc w \<and> out ! Suc w \<noteq> CHR ''/''"
      using Suc.prems(3) False Suc.prems(1) by auto
    ultimately show ?thesis using Suc by simp
  qed
qed

lemma backtrack_rootedPath:
  assumes "list_all plain segs" and "segs \<noteq> []"
  shows "backtrack (rootedPath segs) (Suc 0) = rootedPath (butlast segs)"
proof -
  obtain ys e where segs: "segs = ys @ [e]"
    using assms(2) by (metis snoc_eq_iff_butlast)
  have e: "e \<noteq> []" "CHR ''/'' \<notin> set e" and ys: "list_all plain ys"
    using assms(1) segs by (auto simp: plain_def)
  let ?a = "rootedPath ys"
  have la: "1 \<le> length ?a" by (simp add: rootedPath_def)
  show ?thesis
  proof (cases "ys = []")
    case True
    have out: "rootedPath segs = ''/'' @ e" using True segs by (simp add: rootedPath_def)
    have nth: "\<And>i. 1 < i \<Longrightarrow> i \<le> length e \<Longrightarrow> (''/'' @ e) ! i \<noteq> CHR ''/''"
    proof -
      fix i assume i: "1 < i" "i \<le> length e"
      then have "(''/'' @ e) ! i = e ! (i - 1)" by (simp add: nth_Cons')
      moreover have "i - 1 < length e" using i by simp
      ultimately show "(''/'' @ e) ! i \<noteq> CHR ''/''" using e(2) by (metis nth_mem)
    qed
    have "1 \<le> length e" using e(1) by (cases e) auto
    then have "dropToSlash (''/'' @ e) 1 (length e) = 1"
      using nth by (intro dropToSlash_stop) auto
    then show ?thesis using True segs out by (simp add: backtrack_def rootedPath_def)
  next
    case False
    have out: "rootedPath segs = ?a @ ''/'' @ e" using False segs by (simp add: rootedPath_snoc)
    have l2: "1 < length ?a"
      using rootedPath_length [OF ys] False la by (cases "length ?a = 1") auto
    have nth: "\<And>i. length ?a < i \<Longrightarrow> i \<le> length ?a + length e
                  \<Longrightarrow> (?a @ ''/'' @ e) ! i \<noteq> CHR ''/''"
    proof -
      fix i assume i: "length ?a < i" "i \<le> length ?a + length e"
      then have "(?a @ ''/'' @ e) ! i = e ! (i - length ?a - 1)"
        by (simp add: nth_append nth_Cons')
      moreover have "i - length ?a - 1 < length e" using i by simp
      ultimately show "(?a @ ''/'' @ e) ! i \<noteq> CHR ''/''"
        using e(2) by (metis nth_mem)
    qed
    have "dropToSlash (?a @ ''/'' @ e) 1 (length ?a + length e) = length ?a"
      using l2 nth by (intro dropToSlash_stop) (auto simp: nth_append)
    then show ?thesis using segs out by (simp add: backtrack_def)
  qed
qed

lemma takeWhile_segment:
  assumes "CHR ''/'' \<notin> set cs" and "rest = [] \<or> hd rest = CHR ''/''"
  shows "takeWhile (\<lambda>x. x \<noteq> CHR ''/'') (cs @ rest) = cs"
    and "dropWhile (\<lambda>x. x \<noteq> CHR ''/'') (cs @ rest) = rest"
  using assms by (induction cs) (auto simp: takeWhile_eq_Nil_iff dropWhile_eq_self_iff)

lemma takeWhile_trailing_slash:
  "takeWhile (\<lambda>x. x \<noteq> CHR ''/'') (rest @ ''/'') = takeWhile (\<lambda>x. x \<noteq> CHR ''/'') rest"
  "dropWhile (\<lambda>x. x \<noteq> CHR ''/'') (rest @ ''/'') = dropWhile (\<lambda>x. x \<noteq> CHR ''/'') rest @ ''/''"
  by (induction rest) auto

text \<open>One round of the loop of \<^verbatim>\<open>Clean\<close>, by the kind of element it reads.\<close>

lemma cleanLoop_slash: "cleanLoop r (CHR ''/'' # rest) out dd = cleanLoop r rest out dd"
  by simp

lemma cleanLoop_dot:
  assumes "rest = [] \<or> hd rest = CHR ''/''"
  shows "cleanLoop r (''.'' @ rest) out dd = cleanLoop r rest out dd"
  using assms by auto

lemma cleanLoop_dotdot:
  assumes "rest = [] \<or> hd rest = CHR ''/''"
  shows "cleanLoop r (''..'' @ rest) out dd
           = (if length out > dd
              then cleanLoop r rest (backtrack out dd) dd
              else if \<not> r
              then (let out1 = (if length out > 0 then out @ ''/'' else out) @ ''..''
                    in cleanLoop r rest out1 (length out1))
              else cleanLoop r rest out dd)"
  using assms by auto

lemma cleanLoop_default:
  assumes "c \<noteq> CHR ''/''"
      and "\<not> (c = CHR ''.'' \<and> (rest = [] \<or> hd rest = CHR ''/''))"
      and "\<not> (c = CHR ''.'' \<and> hd rest = CHR ''.'' \<and> (tl rest = [] \<or> hd (tl rest) = CHR ''/''))"
  shows "cleanLoop r (c # rest) out dd
           = cleanLoop r (dropWhile (\<lambda>x. x \<noteq> CHR ''/'') rest)
               ((if r \<and> length out \<noteq> 1 \<or> \<not> r \<and> length out \<noteq> 0 then out @ ''/'' else out)
                  @ c # takeWhile (\<lambda>x. x \<noteq> CHR ''/'') rest) dd"
  by (subst cleanLoop.simps(2)) (simp only: assms if_False Let_def)

lemma cleanLoop_dotdot_rooted:
  assumes "rest = [] \<or> hd rest = CHR ''/''" and "list_all plain segs"
  shows "cleanLoop True (''..'' @ rest) (rootedPath segs) (Suc 0)
           = cleanLoop True rest (rootedPath (butlast segs)) (Suc 0)"
proof (cases "segs = []")
  case True
  then show ?thesis using assms(1) by (auto simp: rootedPath_def)
next
  case False
  then have "length (rootedPath segs) > 1"
    using rootedPath_length [OF assms(2)]
    by (cases "length (rootedPath segs) = 1") (auto simp: rootedPath_def)
  then show ?thesis
    using assms False by (auto simp: backtrack_rootedPath)
qed

lemma cleanLoop_segment_rooted:
  assumes "plain e" and "rest = [] \<or> hd rest = CHR ''/''" and "list_all plain segs"
  shows "cleanLoop True (e @ rest) (rootedPath segs) (Suc 0)
           = cleanLoop True rest (rootedPath (segs @ [e])) (Suc 0)"
  supply cleanLoop.simps(2) [simp del]
proof -
  obtain c cs where e: "e = c # cs" using assms(1) by (cases e) (auto simp: plain_def)
  have c: "c \<noteq> CHR ''/''" and cs: "CHR ''/'' \<notin> set cs"
    using assms(1) e by (auto simp: plain_def)
  have nd: "\<not> (c = CHR ''.'' \<and> (cs @ rest = [] \<or> hd (cs @ rest) = CHR ''/''))"
    using assms(1) e cs by (cases cs) (auto simp: plain_def)
  have ndd: "\<not> (c = CHR ''.'' \<and> hd (cs @ rest) = CHR ''.''
                \<and> (tl (cs @ rest) = [] \<or> hd (tl (cs @ rest)) = CHR ''/''))"
  proof (cases cs)
    case Nil
    then show ?thesis using assms(1) e by (auto simp: plain_def)
  next
    case (Cons d ds)
    then show ?thesis using assms(1) e cs by (cases ds) (auto simp: plain_def)
  qed
  have len: "length (rootedPath segs) \<noteq> 1 \<longleftrightarrow> segs \<noteq> []"
    using rootedPath_length [OF assms(3)] by simp
  have "cleanLoop True (e @ rest) (rootedPath segs) (Suc 0)
          = cleanLoop True rest
              ((if segs \<noteq> [] then rootedPath segs @ ''/'' else rootedPath segs) @ e) (Suc 0)"
    using cleanLoop_default [OF c nd ndd, of True "rootedPath segs" "Suc 0"]
      takeWhile_segment [OF cs assms(2)] len
    by (simp add: e)
  also have "(if segs \<noteq> [] then rootedPath segs @ ''/'' else rootedPath segs) @ e
               = rootedPath (segs @ [e])"
    by (simp add: rootedPath_snoc) (simp add: rootedPath_def)
  finally show ?thesis .
qed

lemma cleanLoop_segments_rooted:
  assumes "list_all plain ss" and "list_all plain st" and "rest = [] \<or> hd rest = CHR ''/''"
  shows "cleanLoop True (joinSegs ss @ rest) (rootedPath st) (Suc 0)
           = cleanLoop True rest (rootedPath (st @ ss)) (Suc 0)"
  supply cleanLoop.simps(2) [simp del]
  using assms
proof (induction ss arbitrary: st rule: joinSegs.induct)
  case 1
  then show ?case by simp
next
  case (2 e)
  then show ?case using cleanLoop_segment_rooted [of e rest st] by simp
next
  case (3 e e' es)
  have "cleanLoop True (joinSegs (e # e' # es) @ rest) (rootedPath st) (Suc 0)
          = cleanLoop True (e @ (CHR ''/'' # joinSegs (e' # es) @ rest)) (rootedPath st) (Suc 0)"
    by simp
  also have "\<dots> = cleanLoop True (CHR ''/'' # joinSegs (e' # es) @ rest) (rootedPath (st @ [e])) (Suc 0)"
    using "3.prems" by (intro cleanLoop_segment_rooted) auto
  also have "\<dots> = cleanLoop True (joinSegs (e' # es) @ rest) (rootedPath (st @ [e])) (Suc 0)"
    by (rule cleanLoop_slash)
  also have "\<dots> = cleanLoop True rest (rootedPath ((st @ [e]) @ e' # es)) (Suc 0)"
    using "3.prems" by (intro "3.IH") auto
  finally show ?case by simp
qed

text \<open>A rooted path of plain segments is clean.\<close>

lemma Clean_rootedPath:
  assumes "list_all plain segs"
  shows "Clean (rootedPath segs) = rootedPath segs"
  supply cleanLoop.simps(2) [simp del]
proof -
  have "cleanLoop True (joinSegs segs @ []) (rootedPath []) (Suc 0)
          = cleanLoop True [] (rootedPath ([] @ segs)) (Suc 0)"
    using assms by (intro cleanLoop_segments_rooted) auto
  then have "cleanLoop True (joinSegs segs) ''/'' (Suc 0) = rootedPath segs"
    by (simp add: rootedPath_def)
  then show ?thesis by (simp add: Clean_def) (simp add: rootedPath_def)
qed

text \<open>The loop keeps a rooted buffer a rooted path of plain segments, whatever it reads.\<close>

lemma cleanLoop_rooted_plain:
  assumes "list_all plain segs"
  shows "\<exists>segs'. cleanLoop True inp (rootedPath segs) (Suc 0) = rootedPath segs' \<and> list_all plain segs'"
  supply cleanLoop.simps(2) [simp del]
  using assms
proof (induction "length inp" arbitrary: inp segs rule: less_induct)
  case less
  let ?e = "takeWhile (\<lambda>x. x \<noteq> CHR ''/'') inp"
  let ?rest = "dropWhile (\<lambda>x. x \<noteq> CHR ''/'') inp"
  have inp: "inp = ?e @ ?rest" by simp
  have rest: "?rest = [] \<or> hd ?rest = CHR ''/''"
    using hd_dropWhile [of "\<lambda>x. x \<noteq> CHR ''/''" inp] by auto
  have noslash: "CHR ''/'' \<notin> set ?e"
    using set_takeWhileD by fastforce
  show ?case
  proof (cases "inp = []")
    case True
    then show ?thesis using less.prems by auto
  next
    case False
    show ?thesis
    proof (cases "?e = []")
      case True
      then obtain rest where r: "inp = CHR ''/'' # rest"
        using False by (cases inp) (auto split: if_splits)
      have "\<exists>segs'. cleanLoop True rest (rootedPath segs) (Suc 0) = rootedPath segs'
                     \<and> list_all plain segs'"
        using less.prems r by (intro less.hyps) auto
      then show ?thesis by (simp add: r cleanLoop_slash)
    next
      case ne: False
      then have shorter: "length ?rest < length inp"
        by (metis inp length_append length_greater_0_conv less_add_same_cancel2)
      have step: "\<exists>segs1. cleanLoop True inp (rootedPath segs) (Suc 0)
                     = cleanLoop True ?rest (rootedPath segs1) (Suc 0) \<and> list_all plain segs1"
      proof (cases "?e = ''.''")
        case True
        have "cleanLoop True (''.'' @ ?rest) (rootedPath segs) (Suc 0)
                = cleanLoop True ?rest (rootedPath segs) (Suc 0)"
          using rest by (rule cleanLoop_dot)
        then show ?thesis using True inp less.prems by metis
      next
        case nd: False
        show ?thesis
        proof (cases "?e = ''..''")
          case True
          have "cleanLoop True (''..'' @ ?rest) (rootedPath segs) (Suc 0)
                  = cleanLoop True ?rest (rootedPath (butlast segs)) (Suc 0)"
            using rest less.prems by (rule cleanLoop_dotdot_rooted)
          moreover have "list_all plain (butlast segs)"
            using less.prems by (auto simp: list_all_iff dest: in_set_butlastD)
          ultimately show ?thesis using True inp by metis
        next
          case False
          then have pl: "plain ?e" using ne nd noslash by (simp add: plain_def)
          have "cleanLoop True (?e @ ?rest) (rootedPath segs) (Suc 0)
                  = cleanLoop True ?rest (rootedPath (segs @ [?e])) (Suc 0)"
            using pl rest less.prems by (rule cleanLoop_segment_rooted)
          moreover have "list_all plain (segs @ [?e])"
            using less.prems pl by simp
          ultimately show ?thesis using inp by metis
        qed
      qed
      then obtain segs1 where s1: "cleanLoop True inp (rootedPath segs) (Suc 0)
                     = cleanLoop True ?rest (rootedPath segs1) (Suc 0)" "list_all plain segs1"
        by blast
      have "\<exists>segs'. cleanLoop True ?rest (rootedPath segs1) (Suc 0) = rootedPath segs'
                     \<and> list_all plain segs'"
        using shorter s1(2) by (intro less.hyps)
      then show ?thesis using s1(1) by simp
    qed
  qed
qed

lemma Clean_rooted_plain:
  assumes "p \<noteq> []" and "hd p = CHR ''/''"
  shows "\<exists>segs. Clean p = rootedPath segs \<and> list_all plain segs"
  supply cleanLoop.simps(2) [simp del]
proof -
  obtain segs where "cleanLoop True (tl p) (rootedPath []) (Suc 0) = rootedPath segs"
    "list_all plain segs"
    using cleanLoop_rooted_plain [of "[]" "tl p"] by auto
  then show ?thesis using assms by (auto simp: Clean_def rootedPath_def)
qed

text \<open>A slash at the end of the input changes nothing.\<close>

lemma cleanLoop_trailing_slash: "cleanLoop r (p @ ''/'') out dd = cleanLoop r p out dd"
  supply cleanLoop.simps(2) [simp del]
proof (induction r p out dd rule: cleanLoop.induct)
  case (1 rooted out dotdot)
  then show ?case by (simp add: cleanLoop_slash)
next
  case (2 rooted c rest out dotdot)
  have A: "(rest @ ''/'' = [] \<or> hd (rest @ ''/'') = CHR ''/'') = (rest = [] \<or> hd rest = CHR ''/'')"
    by (cases rest) auto
  have B: "rest \<noteq> [] \<Longrightarrow> hd (rest @ ''/'') = hd rest"
    by simp
  have C: "rest \<noteq> [] \<Longrightarrow> (tl (rest @ ''/'') = [] \<or> hd (tl (rest @ ''/'')) = CHR ''/'')
             = (tl rest = [] \<or> hd (tl rest) = CHR ''/'')"
    by (cases rest; cases "tl rest") auto
  show ?case
  proof (cases "c = CHR ''/''")
    case True
    then show ?thesis using 2(1) by (simp add: cleanLoop_slash)
  next
    case ns: False
    show ?thesis
    proof (cases "c = CHR ''.'' \<and> (rest = [] \<or> hd rest = CHR ''/'')")
      case True
      have l: "cleanLoop rooted (c # rest @ ''/'') out dotdot = cleanLoop rooted (rest @ ''/'') out dotdot"
        using True A cleanLoop_dot [of "rest @ ''/''" rooted out dotdot] by simp
      have r: "cleanLoop rooted (c # rest) out dotdot = cleanLoop rooted rest out dotdot"
        using True cleanLoop_dot [of rest rooted out dotdot] by simp
      have "cleanLoop rooted ((c # rest) @ ''/'') out dotdot = cleanLoop rooted (rest @ ''/'') out dotdot"
        using l by simp
      also have "\<dots> = cleanLoop rooted rest out dotdot"
        using True 2(2) [OF ns] by simp
      also have "\<dots> = cleanLoop rooted (c # rest) out dotdot"
        using r by simp
      finally show ?thesis .
    next
      case nd: False
      show ?thesis
      proof (cases "c = CHR ''.'' \<and> hd rest = CHR ''.'' \<and> (tl rest = [] \<or> hd (tl rest) = CHR ''/'')")
        case True
        then have rne: "rest \<noteq> []" using nd by auto
        with True obtain rest' where rr: "rest = CHR ''.'' # rest'" and cc: "c = CHR ''.''"
          and t0: "rest' = [] \<or> hd rest' = CHR ''/''"
          by (cases rest) auto
        have t: "rest' @ ''/'' = [] \<or> hd (rest' @ ''/'') = CHR ''/''"
          using t0 by (cases rest') auto
        note l = cleanLoop_dotdot [OF t, of rooted out dotdot]
        note r = cleanLoop_dotdot [OF t0, of rooted out dotdot]
        have ih1: "cleanLoop rooted (rest' @ ''/'') (backtrack out dotdot) dotdot
                      = cleanLoop rooted rest' (backtrack out dotdot) dotdot"
          if "dotdot < length out"
          using 2(3) [OF ns nd True that] by (simp add: rr)
        have ih2: "cleanLoop rooted (rest' @ ''/'') (out1 @ ''..'') (length (out1 @ ''..''))
                     = cleanLoop rooted rest' (out1 @ ''..'') (length (out1 @ ''..''))"
          if "\<not> dotdot < length out" "\<not> rooted" "out1 = (if 0 < length out then out @ ''/'' else out)"
          for out1
          using 2(4) [OF ns nd True that(1) that(2) refl] that(3) by (simp add: rr)
        have ih3: "cleanLoop rooted (rest' @ ''/'') out dotdot = cleanLoop rooted rest' out dotdot"
          if "\<not> dotdot < length out" "rooted"
          using 2(5) [OF ns nd True that(1)] that(2) by (simp add: rr)
        have "cleanLoop rooted (''..'' @ (rest' @ ''/'')) out dotdot
                = cleanLoop rooted (''..'' @ rest') out dotdot"
        proof (cases "dotdot < length out")
          case True
          then show ?thesis unfolding l r using ih1 by simp
        next
          case lo: False
          show ?thesis
          proof (cases rooted)
            case True
            then show ?thesis unfolding l r using lo ih3 by simp
          next
            case False
            then show ?thesis unfolding l r using lo ih2 [OF lo False refl] by (simp add: Let_def)
          qed
        qed
        then show ?thesis by (simp add: cc rr)
      next
        case ndd: False
        have nd': "\<not> (c = CHR ''.'' \<and> (rest @ ''/'' = [] \<or> hd (rest @ ''/'') = CHR ''/''))"
          using nd A by simp
        have ndd': "\<not> (c = CHR ''.'' \<and> hd (rest @ ''/'') = CHR ''.''
                    \<and> (tl (rest @ ''/'') = [] \<or> hd (tl (rest @ ''/'')) = CHR ''/''))"
        proof (cases "rest = []")
          case True
          then show ?thesis using nd by auto
        next
          case False
          then show ?thesis using ndd B C by simp
        qed
        show ?thesis
          using 2(6) [OF ns nd ndd refl]
          by (simp add: cleanLoop_default [OF ns nd ndd] cleanLoop_default [OF ns nd' ndd']
              takeWhile_trailing_slash)
      qed
    qed
  qed
qed

lemma Clean_trailing_slash:
  assumes "p \<noteq> []"
  shows "Clean (p @ ''/'') = Clean p"
  supply cleanLoop.simps(2) [simp del]
  using assms cleanLoop_trailing_slash [of True "tl p" "''/''" 1]
    cleanLoop_trailing_slash [of False p "[]" 0]
  by (simp add: Clean_def)

lemma VolumePath_Clean:
  assumes "volumePath c \<noteq> []"
  shows "VolumePath c name = Clean (volumePath c @ ''/'' @ name)"
  using assms by (simp add: VolumePath_def Join_def)

text \<open>A name that begins with \<^verbatim>\<open>../\<close> is resolved from the parent of the volumes root:
  the root without its last segment.\<close>

lemma VolumePath_dotdot:
  assumes "volumePath c = rootedPath segs" and "list_all plain segs"
  shows "VolumePath c (''../'' @ rest) = Clean (rootedPath (butlast segs) @ ''/'' @ rest)"
  supply cleanLoop.simps(2) [simp del]
proof -
  have bl: "list_all plain (butlast segs)"
    using assms(2) by (auto simp: list_all_iff dest: in_set_butlastD)
  have "cleanLoop True (joinSegs segs @ (CHR ''/'' # ''..'' @ (CHR ''/'' # rest))) (rootedPath []) (Suc 0)
          = cleanLoop True (CHR ''/'' # ''..'' @ (CHR ''/'' # rest)) (rootedPath ([] @ segs)) (Suc 0)"
    using assms(2) by (intro cleanLoop_segments_rooted) auto
  also have "\<dots> = cleanLoop True (''..'' @ (CHR ''/'' # rest)) (rootedPath segs) (Suc 0)"
    by (simp add: cleanLoop_slash)
  also have "\<dots> = cleanLoop True (CHR ''/'' # rest) (rootedPath (butlast segs)) (Suc 0)"
    using assms(2) by (intro cleanLoop_dotdot_rooted) auto
  finally have l: "cleanLoop True (joinSegs segs @ ''/../'' @ rest) ''/'' (Suc 0)
                     = cleanLoop True (CHR ''/'' # rest) (rootedPath (butlast segs)) (Suc 0)"
    by (simp add: rootedPath_def)
  have "cleanLoop True (joinSegs (butlast segs) @ (CHR ''/'' # rest)) (rootedPath []) (Suc 0)
          = cleanLoop True (CHR ''/'' # rest) (rootedPath ([] @ butlast segs)) (Suc 0)"
    using bl by (intro cleanLoop_segments_rooted) auto
  then have r: "cleanLoop True (joinSegs (butlast segs) @ ''/'' @ rest) ''/'' (Suc 0)
                  = cleanLoop True (CHR ''/'' # rest) (rootedPath (butlast segs)) (Suc 0)"
    by (simp add: rootedPath_def)
  have "VolumePath c (''../'' @ rest) = Clean (rootedPath segs @ ''/'' @ ''../'' @ rest)"
    using assms(1) by (simp add: VolumePath_Clean rootedPath_def)
  then show ?thesis
    using l r by (simp add: Clean_def rootedPath_def)
qed

lemma VolumePath_parent:
  assumes "volumePath c = rootedPath segs" and "list_all plain segs" and "plain x"
  shows "VolumePath c (''../'' @ x) = rootedPath (butlast segs @ [x])"
  supply cleanLoop.simps(2) [simp del]
proof -
  have bl: "list_all plain (butlast segs)"
    using assms(2) by (auto simp: list_all_iff dest: in_set_butlastD)
  have "cleanLoop True (joinSegs segs @ (CHR ''/'' # ''..'' @ (CHR ''/'' # x))) (rootedPath []) (Suc 0)
          = cleanLoop True (CHR ''/'' # ''..'' @ (CHR ''/'' # x)) (rootedPath ([] @ segs)) (Suc 0)"
    using assms(2) by (intro cleanLoop_segments_rooted) auto
  also have "\<dots> = cleanLoop True (''..'' @ (CHR ''/'' # x)) (rootedPath segs) (Suc 0)"
    by (simp add: cleanLoop_slash)
  also have "\<dots> = cleanLoop True (CHR ''/'' # x) (rootedPath (butlast segs)) (Suc 0)"
    using assms(2) by (intro cleanLoop_dotdot_rooted) auto
  also have "\<dots> = cleanLoop True (x @ []) (rootedPath (butlast segs)) (Suc 0)"
    by (simp add: cleanLoop_slash)
  also have "\<dots> = cleanLoop True [] (rootedPath (butlast segs @ [x])) (Suc 0)"
    using assms(3) bl by (intro cleanLoop_segment_rooted) auto
  finally have "cleanLoop True (joinSegs segs @ ''/../'' @ x) ''/'' (Suc 0)
                  = rootedPath (butlast segs @ [x])"
    by (simp add: rootedPath_def)
  moreover have "VolumePath c (''../'' @ x) = Clean (rootedPath segs @ ''/'' @ ''../'' @ x)"
    using assms(1) by (simp add: VolumePath_Clean rootedPath_def)
  ultimately show ?thesis
    by (simp add: Clean_def rootedPath_def)
qed

text \<open>
  C10 (as amended). For every name, \<^verbatim>\<open>VolumePath(name)\<close> is \<^verbatim>\<open>path.Join\<close> of the configured
  volumes path and the name. \<^verbatim>\<open>VolumePath("")\<close> is the cleaned volumes path. When the
  volumes path begins with a slash, the result is a slash followed by plain segments
  joined by single slashes: it has no \<^verbatim>\<open>.\<close> or \<^verbatim>\<open>..\<close> segment and no repeated slash. When the
  volumes path is itself such a clean rooted path, \<^verbatim>\<open>VolumePath("")\<close> is the volumes path,
  and a name that begins with \<^verbatim>\<open>../\<close> is resolved from the parent directory of the volumes
  root: its rest is joined to the root without the last segment, so that \<^verbatim>\<open>../x\<close> with \<open>x\<close>
  a plain segment yields the path of \<open>x\<close> beside the volumes root.
\<close>

theorem VolumePath_lexical_join:
  "VolumePath c name = Join [volumePath c, name]
   \<and> (volumePath c \<noteq> [] \<longrightarrow> VolumePath c [] = Clean (volumePath c))
   \<and> (volumePath c \<noteq> [] \<and> hd (volumePath c) = CHR ''/'' \<longrightarrow>
        (\<exists>segs. VolumePath c name = rootedPath segs \<and> list_all plain segs))
   \<and> (\<forall>segs. volumePath c = rootedPath segs \<and> list_all plain segs \<longrightarrow>
        VolumePath c [] = volumePath c
        \<and> (\<forall>rest. VolumePath c (''../'' @ rest) = Clean (rootedPath (butlast segs) @ ''/'' @ rest))
        \<and> (\<forall>x. plain x \<longrightarrow> VolumePath c (''../'' @ x) = rootedPath (butlast segs @ [x])))"
proof (intro conjI impI allI)
  show "VolumePath c name = Join [volumePath c, name]" by (simp add: VolumePath_def)
next
  assume ne: "volumePath c \<noteq> []"
  then show "VolumePath c [] = Clean (volumePath c)"
    using Clean_trailing_slash [of "volumePath c"] by (simp add: VolumePath_Clean)
next
  assume "volumePath c \<noteq> [] \<and> hd (volumePath c) = CHR ''/''"
  then show "\<exists>segs. VolumePath c name = rootedPath segs \<and> list_all plain segs"
    using Clean_rooted_plain [of "volumePath c @ ''/'' @ name"] by (simp add: VolumePath_Clean)
next
  fix segs assume a: "volumePath c = rootedPath segs \<and> list_all plain segs"
  then have "VolumePath c [] = Clean (rootedPath segs)"
    using Clean_trailing_slash [of "volumePath c"] by (simp add: VolumePath_Clean rootedPath_def)
  then show "VolumePath c [] = volumePath c"
    using a by (simp add: Clean_rootedPath)
next
  fix segs rest assume "volumePath c = rootedPath segs \<and> list_all plain segs"
  then show "VolumePath c (''../'' @ rest) = Clean (rootedPath (butlast segs) @ ''/'' @ rest)"
    using VolumePath_dotdot by blast
next
  fix segs x assume "volumePath c = rootedPath segs \<and> list_all plain segs" "plain x"
  then show "VolumePath c (''../'' @ x) = rootedPath (butlast segs @ [x])"
    using VolumePath_parent by blast
qed

theorem VolumePath_lexical_join_witness:
  "VolumePath sampleClient [] = ''/ifs/volumes''
   \<and> VolumePath sampleClient ''../x'' = ''/ifs/x''
   \<and> (\<exists>segs. VolumePath sampleClient ''a/./b//../c'' = rootedPath segs \<and> list_all plain segs)"
proof -
  have vp: "volumePath sampleClient = rootedPath [''ifs'', ''volumes'']
            \<and> list_all plain [''ifs'', ''volumes'']"
    by (simp add: sampleClient_def newClient_def defaultVolumesPath_def rootedPath_def plain_def)
  have x: "plain ''x''" by (simp add: plain_def)
  have r: "volumePath sampleClient \<noteq> [] \<and> hd (volumePath sampleClient) = CHR ''/''"
    by (simp add: sampleClient_def newClient_def defaultVolumesPath_def)
  note w = VolumePath_lexical_join [of sampleClient "''a/./b//../c''"]
  from w have "\<forall>segs. volumePath sampleClient = rootedPath segs \<and> list_all plain segs \<longrightarrow>
          VolumePath sampleClient [] = volumePath sampleClient
          \<and> (\<forall>x. plain x \<longrightarrow> VolumePath sampleClient (''../'' @ x) = rootedPath (butlast segs @ [x]))"
    by blast
  with vp have "VolumePath sampleClient [] = volumePath sampleClient
          \<and> (\<forall>x. plain x \<longrightarrow> VolumePath sampleClient (''../'' @ x)
                = rootedPath (butlast [''ifs'', ''volumes''] @ [x]))"
    by blast
  with x have "VolumePath sampleClient [] = volumePath sampleClient
          \<and> VolumePath sampleClient (''../'' @ ''x'') = rootedPath (butlast [''ifs'', ''volumes''] @ [''x''])"
    by blast
  then have a: "VolumePath sampleClient [] = ''/ifs/volumes'' \<and> VolumePath sampleClient ''../x'' = ''/ifs/x''"
    by (simp add: rootedPath_def) (simp add: sampleClient_def newClient_def defaultVolumesPath_def)
  from w r have b: "\<exists>segs. VolumePath sampleClient ''a/./b//../c'' = rootedPath segs \<and> list_all plain segs"
    by blast
  show ?thesis using a b by blast
qed

text \<open>
  C10 as stated fails. Under the default volumes path the name \<^verbatim>\<open>../volumes/a\<close> begins with
  \<^verbatim>\<open>../\<close> and yields a path inside the volumes root. With the volumes path \<^verbatim>\<open>/ifs/volumes/\<close>
  the empty name yields \<^verbatim>\<open>/ifs/volumes\<close>, not the configured path. With the relative volumes
  path \<^verbatim>\<open>vol\<close> the name \<^verbatim>\<open>../..\<close> yields \<^verbatim>\<open>..\<close>, a \<^verbatim>\<open>..\<close> segment.
\<close>

theorem VolumePath_counterexample:
  "VolumePath (newClient ''https://1.2.3.4:8080'' ''admin'' ''secret'' [] None) ''../volumes/a''
     = ''/ifs/volumes/a''
   \<and> VolumePath (newClient ''https://1.2.3.4:8080'' ''admin'' ''secret'' []
        (Some \<lparr>optInsecure = False, optVolumesPath = ''/ifs/volumes/'', optTimeout = 0\<rparr>)) []
     = ''/ifs/volumes''
   \<and> VolumePath (newClient ''https://1.2.3.4:8080'' ''admin'' ''secret'' []
        (Some \<lparr>optInsecure = False, optVolumesPath = ''vol'', optTimeout = 0\<rparr>)) ''../..''
     = ''..''"
  by code_simp

end
